theory Spec2Isabelle
  imports Complex_Main "HOL-Library.AList" "HOL-Library.Word" "HOL-Library.Log_Nat"
begin

section \<open>ScanNet preprocessing: the embedding of \<open>scripts/preprocess_scannet.py\<close>\<close>

text \<open>
  The theory embeds the class \<open>ScannetProcess\<close>: the four readers, \<open>export\<close> and
  \<open>process_scene\<close>. Conventions:
  \<^item> a Python exception is a value of \<open>error\<close>; a function that can raise returns
    \<open>error + 'a\<close> and every later statement is a branch under \<open>Inr\<close>;
  \<^item> a \<open>dict\<close> is an association list in insertion order, written with
    \<open>AList.update\<close> (a new key goes to the end, an old key keeps its place) and read
    with \<open>map_of\<close>;
  \<^item> a file is the value its parser yields, \<open>None\<close> when the path is not a file;
  \<^item> a \<open>uint32\<close> array is a \<open>32 word list\<close>; a float array is a list over a linearly
    ordered field \<open>'a\<close>, the numbers the floats stand for. Where NumPy rounds (a value
    stored as \<open>float32\<close>, an operation on \<open>float32\<close> numbers, the \<open>float64\<close> product of
    \<open>np.dot\<close>) the model applies the rounding of the record \<open>builtins\<close>; what is exact
    in floating point (a minimum, a comparison, a \<open>float32\<close> read as \<open>float64\<close>) is
    exact in the model. Infinities and NaN are not modelled;
  \<^item> what the interpreter and NumPy contribute (\<open>int()\<close>, \<open>float()\<close>, the roundings,
    the conversion of an out-of-range integer, the random sampler) is a field of the
    record \<open>builtins\<close>, so every theorem holds for each of their behaviours.
\<close>

subsection \<open>Exceptions, builtins and dictionaries\<close>

datatype error =
    AssertionError      \<comment> \<open>\<open>assert os.path.isfile(filename)\<close>\<close>
  | FileNotFoundError   \<comment> \<open>\<open>open(meta_file)\<close>\<close>
  | KeyError            \<comment> \<open>a missing dictionary key\<close>
  | IndexError          \<comment> \<open>an index or a boolean mask that does not fit the array\<close>
  | ValueError          \<comment> \<open>\<open>int()\<close>, \<open>float()\<close>, \<open>reshape\<close>, \<open>concatenate\<close>, \<open>random.choice\<close>\<close>
  | UnboundLocalError   \<comment> \<open>\<open>axis_align_matrix\<close> read before any assignment\<close>
  | OverflowError       \<comment> \<open>an integer that does not fit \<open>uint32\<close>\<close>

record 'a builtins =
  py_int :: "string \<Rightarrow> int option"      \<comment> \<open>\<open>int(s)\<close>; \<open>None\<close> is its \<open>ValueError\<close>\<close>
  py_float :: "string \<Rightarrow> 'a option"     \<comment> \<open>\<open>float(s)\<close>; \<open>None\<close> is its \<open>ValueError\<close>\<close>
  np_legacy :: bool
    \<comment> \<open>NumPy before 2.0: an out-of-range integer wraps where later releases raise, and
        a \<open>float32\<close> scalar divided by a Python integer is a \<open>float64\<close>\<close>
  np_float32 :: "'a \<Rightarrow> 'a"              \<comment> \<open>the \<open>float32\<close> nearest to a number\<close>
  np_inner :: "'a list \<Rightarrow> 'a list \<Rightarrow> 'a"
    \<comment> \<open>the \<open>float64\<close> inner product \<open>np.dot\<close> returns for a row and a column; the BLAS
        behind it fixes the order of the sum and its roundings\<close>
  np_random_choice :: "nat \<Rightarrow> nat \<Rightarrow> nat list"  \<comment> \<open>the outcome of \<open>np.random.choice(N, k, replace=False)\<close>\<close>

definition getitem :: "('k \<times> 'v) list \<Rightarrow> 'k \<Rightarrow> error + 'v" where
  "getitem d k = (case map_of d k of None \<Rightarrow> Inl KeyError | Some v \<Rightarrow> Inr v)"

definition represents_int :: "(string \<Rightarrow> int option) \<Rightarrow> string \<Rightarrow> bool" where
  "represents_int int_of s = (case int_of s of Some _ \<Rightarrow> True | None \<Rightarrow> False)"

subsection \<open>\<open>read_segmentation\<close> (lines 266-279)\<close>

text \<open>
  The file is the \<open>segIndices\<close> array. The lists stored in \<open>seg_to_verts\<close> are created
  by the loop itself (\<open>[i]\<close>) and are reachable through the dictionary only, so
  \<open>append\<close> is the replacement of the dictionary's value.
\<close>

fun seg_loop :: "int list \<Rightarrow> nat \<Rightarrow> (int \<times> nat list) list \<Rightarrow> (int \<times> nat list) list" where
  "seg_loop [] i seg_to_verts = seg_to_verts"
| "seg_loop (seg_id # rest) i seg_to_verts =
     seg_loop rest (Suc i)
       (case map_of seg_to_verts seg_id of
          Some verts \<Rightarrow> AList.update seg_id (verts @ [i]) seg_to_verts
        | None \<Rightarrow> AList.update seg_id [i] seg_to_verts)"

definition read_segmentation :: "int list option \<Rightarrow> error + ((int \<times> nat list) list \<times> nat)" where
  "read_segmentation file =
     (case file of
        None \<Rightarrow> Inl AssertionError
      | Some segIndices \<Rightarrow> Inr (seg_loop segIndices 0 [], length segIndices))"

subsection \<open>\<open>read_aggregation\<close> (lines 246-264)\<close>

text \<open>
  The statement \<open>label_to_segs[label] = segs\<close> stores the very list object that
  \<open>object_id_to_segs[object_id] = segs\<close> has stored, and \<open>extend\<close> changes that object.
  The model therefore keeps a store of list objects: the address of the \<open>segments\<close> list
  of group \<open>i\<close> is \<open>i\<close>, both dictionaries hold addresses, and the result is read
  from the store when the function returns.
\<close>

record seg_group =
  objectId :: int
  label :: string
  segments :: "int list"

type_synonym store = "int list list"

fun agg_loop :: "seg_group list \<Rightarrow> nat \<Rightarrow> store \<times> (int \<times> nat) list \<times> (string \<times> nat) list
    \<Rightarrow> store \<times> (int \<times> nat) list \<times> (string \<times> nat) list" where
  "agg_loop [] i st = st"
| "agg_loop (g # gs) i (h, object_id_to_segs, label_to_segs) =
     (let object_id = objectId g + 1;
          segs = i;
          object_id_to_segs' = AList.update object_id segs object_id_to_segs
      in case map_of label_to_segs (label g) of
           Some r \<Rightarrow> agg_loop gs (Suc i) (h[r := h ! r @ h ! segs], object_id_to_segs', label_to_segs)
         | None \<Rightarrow>
             agg_loop gs (Suc i) (h, object_id_to_segs', AList.update (label g) segs label_to_segs))"

definition deref :: "store \<Rightarrow> ('k \<times> nat) list \<Rightarrow> ('k \<times> int list) list" where
  "deref h d = map (\<lambda>(k, r). (k, h ! r)) d"

definition read_aggregation ::
  "seg_group list option \<Rightarrow> error + ((int \<times> int list) list \<times> (string \<times> int list) list)" where
  "read_aggregation file =
     (case file of
        None \<Rightarrow> Inl AssertionError
      | Some segGroups \<Rightarrow>
          (case agg_loop segGroups 0 (map segments segGroups, [], []) of
             (h, object_id_to_segs, label_to_segs) \<Rightarrow>
               Inr (deref h object_id_to_segs, deref h label_to_segs)))"

subsection \<open>\<open>read_label_mapping\<close> (lines 216-228)\<close>

text \<open>
  The table is the list of rows \<open>csv.DictReader\<close> yields, a row being the pairs of
  column name and field. The returned dictionary has string keys or integer keys.
  In \<open>mapping[row[label_from]] = int(row[label_to])\<close> the right-hand side is
  evaluated first.
\<close>

datatype key = StrKey string | IntKey int

fun build_mapping :: "(string \<Rightarrow> int option) \<Rightarrow> string \<Rightarrow> string \<Rightarrow> (string \<times> string) list list
    \<Rightarrow> (string \<times> int) list \<Rightarrow> error + (string \<times> int) list" where
  "build_mapping int_of label_from label_to [] mapping = Inr mapping"
| "build_mapping int_of label_from label_to (row # rows) mapping =
     (case getitem row label_to of
        Inl e \<Rightarrow> Inl e
      | Inr field \<Rightarrow>
          (case int_of field of
             None \<Rightarrow> Inl ValueError
           | Some v \<Rightarrow>
               (case getitem row label_from of
                  Inl e \<Rightarrow> Inl e
                | Inr k \<Rightarrow> build_mapping int_of label_from label_to rows (AList.update k v mapping))))"

fun rekey :: "(string \<Rightarrow> int option) \<Rightarrow> (string \<times> int) list \<Rightarrow> (key \<times> int) list
    \<Rightarrow> error + (key \<times> int) list" where
  "rekey int_of [] acc = Inr acc"
| "rekey int_of ((k, v) # items) acc =
     (case int_of k of
        None \<Rightarrow> Inl ValueError
      | Some n \<Rightarrow> rekey int_of items (AList.update (IntKey n) v acc))"

definition str_keyed :: "(string \<times> int) list \<Rightarrow> (key \<times> int) list" where
  "str_keyed mapping = map (\<lambda>(k, v). (StrKey k, v)) mapping"

definition read_label_mapping :: "(string \<Rightarrow> int option) \<Rightarrow> (string \<times> string) list list option
    \<Rightarrow> string \<Rightarrow> string \<Rightarrow> error + (key \<times> int) list" where
  "read_label_mapping int_of file label_from label_to =
     (case file of
        None \<Rightarrow> Inl AssertionError
      | Some rows \<Rightarrow>
          (case build_mapping int_of label_from label_to rows [] of
             Inl e \<Rightarrow> Inl e
           | Inr mapping \<Rightarrow>
               (case mapping of
                  [] \<Rightarrow> Inl IndexError
                | (k0, v0) # _ \<Rightarrow>
                    if represents_int int_of k0 then rekey int_of mapping []
                    else Inr (str_keyed mapping))))"

subsection \<open>\<open>read_mesh_vertices_rgb\<close> (lines 230-244)\<close>

text \<open>
  The file is the pair of the point cloud's attributes \<open>points\<close> and \<open>colors\<close>, one
  triple per vertex each; \<open>astype(np.float32)\<close> rounds every number, and
  \<open>np.concatenate(..., axis=1)\<close> joins the two arrays row by row and refuses arrays of
  different lengths.
\<close>

type_synonym 'a vec3 = "'a \<times> 'a \<times> 'a"

definition read_mesh_vertices_rgb :: "('a \<Rightarrow> 'a) \<Rightarrow> ('a vec3 list \<times> 'a vec3 list) option
    \<Rightarrow> error + 'a list list" where
  "read_mesh_vertices_rgb float32 file =
     (case file of
        None \<Rightarrow> Inl AssertionError
      | Some (points, colors) \<Rightarrow>
          if length points = length colors
          then Inr (map2 (\<lambda>(x, y, z) (r, g, b).
                            [float32 x, float32 y, float32 z, float32 r, float32 g, float32 b])
                      points colors)
          else Inl ValueError)"

subsection \<open>The axis alignment (lines 158-171)\<close>

fun is_substring :: "string \<Rightarrow> string \<Rightarrow> bool" where
  "is_substring p [] = (p = [])"
| "is_substring p (c # cs) = (take (length p) (c # cs) = p \<or> is_substring p cs)"

definition py_whitespace :: string where
  "py_whitespace = [CHR 0x09, CHR 0x0A, CHR 0x0B, CHR 0x0C, CHR 0x0D,
                    CHR 0x1C, CHR 0x1D, CHR 0x1E, CHR 0x1F, CHR 0x20]"

definition rstrip :: "string \<Rightarrow> string \<Rightarrow> string" where
  "rstrip chars s = rev (dropWhile (\<lambda>c. c \<in> set chars) (rev s))"

definition strip :: "string \<Rightarrow> string \<Rightarrow> string" where
  "strip chars s = dropWhile (\<lambda>c. c \<in> set chars) (rstrip chars s)"

fun split :: "char \<Rightarrow> string \<Rightarrow> string list" where
  "split sep [] = [[]]"
| "split sep (c # cs) =
     (if c = sep then [] # split sep cs
      else (case split sep cs of [] \<Rightarrow> [[c]] | w # ws \<Rightarrow> (c # w) # ws))"

fun floats :: "(string \<Rightarrow> 'a option) \<Rightarrow> string list \<Rightarrow> error + 'a list" where
  "floats float_of [] = Inr []"
| "floats float_of (x # xs) =
     (case float_of x of
        None \<Rightarrow> Inl ValueError
      | Some v \<Rightarrow> (case floats float_of xs of Inl e \<Rightarrow> Inl e | Inr vs \<Rightarrow> Inr (v # vs)))"

definition reshape44 :: "'a list \<Rightarrow> error + 'a list list" where
  "reshape44 xs =
     (if length xs = 16
      then Inr [take 4 xs, take 4 (drop 4 xs), take 4 (drop 8 xs), take 4 (drop 12 xs)]
      else Inl ValueError)"

text \<open>
  The loop over the lines stops at the first line that contains the key; when no line
  does, \<open>axis_align_matrix\<close> is unbound where line 167 reads it.
\<close>

definition load_axis_alignment :: "(string \<Rightarrow> 'a option) \<Rightarrow> string list \<Rightarrow> error + 'a list list" where
  "load_axis_alignment float_of lines =
     (case find (is_substring ''axisAlignment'') lines of
        None \<Rightarrow> Inl UnboundLocalError
      | Some line \<Rightarrow>
          (case floats float_of (split (CHR '' '') (strip ''axisAlignment = '' (rstrip py_whitespace line))) of
             Inl e \<Rightarrow> Inl e
           | Inr axis_align_matrix \<Rightarrow> reshape44 axis_align_matrix))"

text \<open>
  Lines 168-171. \<open>pts\<close> is a \<open>float64\<close> array, so the \<open>float32\<close> positions enter it
  as they are; \<open>np.dot\<close> pairs every row of \<open>pts\<close> with every column of the transposed
  matrix; the assignment into the \<open>float32\<close> vertex array rounds the three numbers it
  stores.
\<close>

definition np_dot :: "('a list \<Rightarrow> 'a list \<Rightarrow> 'a) \<Rightarrow> 'a list list \<Rightarrow> 'a list list \<Rightarrow> 'a list list" where
  "np_dot inner A B = map (\<lambda>row. map (\<lambda>col. inner row col) (transpose B)) A"

definition apply_alignment :: "('a list \<Rightarrow> 'a list \<Rightarrow> 'a) \<Rightarrow> ('a \<Rightarrow> 'a) \<Rightarrow> 'a::one list list
    \<Rightarrow> 'a list list \<Rightarrow> 'a list list" where
  "apply_alignment inner float32 axis_align_matrix mesh_vertices =
     (let pts = map (\<lambda>v. take 3 v @ [1]) mesh_vertices;
          pts' = np_dot inner pts (transpose axis_align_matrix)
      in map2 (\<lambda>v p. map float32 (take 3 p) @ drop 3 v) mesh_vertices pts')"

subsection \<open>Indexing of NumPy arrays\<close>

text \<open>
  \<open>to_uint32\<close> is the conversion of a Python integer stored into a \<open>uint32\<close> array:
  a value outside the range raises in NumPy 2; before, it wraps modulo \<open>2 ^ 32\<close> when
  it fits \<open>int64\<close> or \<open>uint64\<close> and raises when it fits neither.
\<close>

definition to_uint32 :: "bool \<Rightarrow> int \<Rightarrow> error + 32 word" where
  "to_uint32 legacy v =
     (if 0 \<le> v \<and> v < 2 ^ 32 then Inr (word_of_int v)
      else if legacy \<and> - (2 ^ 63) \<le> v \<and> v < 2 ^ 64 then Inr (word_of_int v)
      else Inl OverflowError)"

definition assign :: "bool \<Rightarrow> 32 word list \<Rightarrow> nat list \<Rightarrow> int \<Rightarrow> error + 32 word list" where
  "assign legacy arr verts v =
     (case to_uint32 legacy v of
        Inl e \<Rightarrow> Inl e
      | Inr w \<Rightarrow>
          if list_all (\<lambda>i. i < length arr) verts then Inr (fold (\<lambda>i a. a[i := w]) verts arr)
          else Inl IndexError)"

definition np_take :: "nat list \<Rightarrow> 'b list \<Rightarrow> error + 'b list" where
  "np_take idx arr =
     (if list_all (\<lambda>i. i < length arr) idx then Inr (map (\<lambda>i. arr ! i) idx) else Inl IndexError)"

definition np_mask :: "bool list \<Rightarrow> 'b list \<Rightarrow> error + 'b list" where
  "np_mask bs arr =
     (if length bs = length arr then Inr (map fst (filter snd (zip arr bs)))
      else Inl IndexError)"

definition row_index :: "nat \<Rightarrow> int \<Rightarrow> error + nat" where
  "row_index n i =
     (if 0 \<le> i \<and> i < int n then Inr (nat i)
      else if - int n \<le> i \<and> i < 0 then Inr (nat (i + int n))
      else Inl IndexError)"

subsection \<open>\<open>export\<close> (lines 152-214)\<close>

record 'a scan_files =
  mesh_file :: "('a vec3 list \<times> 'a vec3 list) option"
  agg_file :: "seg_group list option"
  seg_file :: "int list option"
  meta_file :: "string list option"
  label_map_file :: "(string \<times> string) list list option"

record 'a scene =
  mesh_vertices :: "'a list list"
  label_ids :: "32 word list"
  instance_ids :: "32 word list"
  instance_bboxes :: "'a list list"
  object_id_to_label_id :: "(int \<times> 32 word) list"

text \<open>Lines 179-183: the semantic label of every vertex of every segment of a label.\<close>

fun label_segs :: "bool \<Rightarrow> (int \<times> nat list) list \<Rightarrow> int \<Rightarrow> int list \<Rightarrow> 32 word list
    \<Rightarrow> error + 32 word list" where
  "label_segs legacy seg_to_verts label_id [] lids = Inr lids"
| "label_segs legacy seg_to_verts label_id (seg # segs) lids =
     (case getitem seg_to_verts seg of
        Inl e \<Rightarrow> Inl e
      | Inr verts \<Rightarrow>
          (case assign legacy lids verts label_id of
             Inl e \<Rightarrow> Inl e
           | Inr lids' \<Rightarrow> label_segs legacy seg_to_verts label_id segs lids'))"

fun label_loop :: "bool \<Rightarrow> (key \<times> int) list \<Rightarrow> (int \<times> nat list) list \<Rightarrow> (string \<times> int list) list
    \<Rightarrow> 32 word list \<Rightarrow> error + 32 word list" where
  "label_loop legacy label_map seg_to_verts [] lids = Inr lids"
| "label_loop legacy label_map seg_to_verts ((lab, segs) # items) lids =
     (case getitem label_map (StrKey lab) of
        Inl e \<Rightarrow> Inl e
      | Inr label_id \<Rightarrow>
          (case label_segs legacy seg_to_verts label_id segs lids of
             Inl e \<Rightarrow> Inl e
           | Inr lids' \<Rightarrow> label_loop legacy label_map seg_to_verts items lids'))"

text \<open>Lines 188-193: the instance id of every vertex, and the label of every object.\<close>

definition first_label :: "32 word list \<Rightarrow> nat list \<Rightarrow> error + 32 word" where
  "first_label lids verts =
     (case np_take verts lids of
        Inl e \<Rightarrow> Inl e
      | Inr [] \<Rightarrow> Inl IndexError
      | Inr (l # _) \<Rightarrow> Inr l)"

fun instance_segs :: "bool \<Rightarrow> (int \<times> nat list) list \<Rightarrow> 32 word list \<Rightarrow> int \<Rightarrow> int list
    \<Rightarrow> 32 word list \<times> (int \<times> 32 word) list \<Rightarrow> error + (32 word list \<times> (int \<times> 32 word) list)" where
  "instance_segs legacy seg_to_verts lids object_id [] st = Inr st"
| "instance_segs legacy seg_to_verts lids object_id (seg # segs) (iids, o2l) =
     (case getitem seg_to_verts seg of
        Inl e \<Rightarrow> Inl e
      | Inr verts \<Rightarrow>
          (case assign legacy iids verts object_id of
             Inl e \<Rightarrow> Inl e
           | Inr iids' \<Rightarrow>
               (case map_of o2l object_id of
                  Some _ \<Rightarrow> instance_segs legacy seg_to_verts lids object_id segs (iids', o2l)
                | None \<Rightarrow>
                    (case first_label lids verts of
                       Inl e \<Rightarrow> Inl e
                     | Inr l \<Rightarrow>
                         instance_segs legacy seg_to_verts lids object_id segs
                           (iids', AList.update object_id l o2l)))))"

fun instance_loop :: "bool \<Rightarrow> (int \<times> nat list) list \<Rightarrow> 32 word list \<Rightarrow> (int \<times> int list) list
    \<Rightarrow> 32 word list \<times> (int \<times> 32 word) list \<Rightarrow> error + (32 word list \<times> (int \<times> 32 word) list)" where
  "instance_loop legacy seg_to_verts lids [] st = Inr st"
| "instance_loop legacy seg_to_verts lids ((object_id, segs) # items) st =
     (case instance_segs legacy seg_to_verts lids object_id segs st of
        Inl e \<Rightarrow> Inl e
      | Inr st' \<Rightarrow> instance_loop legacy seg_to_verts lids items st')"

text \<open>
  Lines 196-211: one bounding box per object that has a vertex. \<open>obj_pc\<close> is line 198,
  the positions of the vertices whose instance id is the object id. The minima and
  maxima are \<open>float32\<close> numbers of the array; their sum and their difference are rounded
  to \<open>float32\<close>; the division by 2 is rounded to \<open>float32\<close> by NumPy 2 and is an exact
  \<open>float64\<close> before; the box array is \<open>float64\<close> and takes the seven numbers as they are.
\<close>

definition obj_pc :: "'a list list \<Rightarrow> 32 word list \<Rightarrow> int \<Rightarrow> error + 'a list list" where
  "obj_pc verts iids obj_id =
     (case np_mask (map (\<lambda>w. uint w = obj_id) iids) verts of
        Inl e \<Rightarrow> Inl e
      | Inr rows \<Rightarrow> Inr (map (take 3) rows))"

definition amin :: "'a::linorder list \<Rightarrow> 'a" where
  "amin xs = fold min (tl xs) (hd xs)"

definition amax :: "'a::linorder list \<Rightarrow> 'a" where
  "amax xs = fold max (tl xs) (hd xs)"

definition center :: "bool \<Rightarrow> ('a \<Rightarrow> 'a) \<Rightarrow> 'a::linordered_field \<Rightarrow> 'a \<Rightarrow> 'a" where
  "center legacy float32 lo hi =
     (let s = float32 (lo + hi) in if legacy then s / 2 else float32 (s / 2))"

definition bbox_of :: "bool \<Rightarrow> ('a \<Rightarrow> 'a) \<Rightarrow> 'a::linordered_field list list \<Rightarrow> 32 word \<Rightarrow> 'a list" where
  "bbox_of legacy float32 pc label_id =
     (let xmin = amin (map (\<lambda>p. p ! 0) pc);
          ymin = amin (map (\<lambda>p. p ! 1) pc);
          zmin = amin (map (\<lambda>p. p ! 2) pc);
          xmax = amax (map (\<lambda>p. p ! 0) pc);
          ymax = amax (map (\<lambda>p. p ! 1) pc);
          zmax = amax (map (\<lambda>p. p ! 2) pc)
      in [center legacy float32 xmin xmax, center legacy float32 ymin ymax,
          center legacy float32 zmin zmax,
          float32 (xmax - xmin), float32 (ymax - ymin), float32 (zmax - zmin),
          of_nat (unat label_id)])"

fun bbox_loop :: "bool \<Rightarrow> ('a \<Rightarrow> 'a) \<Rightarrow> 'a::linordered_field list list \<Rightarrow> 32 word list
    \<Rightarrow> (int \<times> 32 word) list \<Rightarrow> int list \<Rightarrow> 'a list list \<Rightarrow> error + 'a list list" where
  "bbox_loop legacy float32 verts iids o2l [] bboxes = Inr bboxes"
| "bbox_loop legacy float32 verts iids o2l (obj_id # rest) bboxes =
     (case getitem o2l obj_id of
        Inl e \<Rightarrow> Inl e
      | Inr label_id \<Rightarrow>
          (case obj_pc verts iids obj_id of
             Inl e \<Rightarrow> Inl e
           | Inr pc \<Rightarrow>
               if length pc = 0 then bbox_loop legacy float32 verts iids o2l rest bboxes
               else
                 (case row_index (length bboxes) (obj_id - 1) of
                    Inl e \<Rightarrow> Inl e
                  | Inr j \<Rightarrow>
                      bbox_loop legacy float32 verts iids o2l rest
                        (bboxes[j := bbox_of legacy float32 pc label_id]))))"

definition export :: "'a::linordered_field builtins \<Rightarrow> 'a scan_files \<Rightarrow> error + 'a scene" where
  "export rt files =
     (case read_mesh_vertices_rgb (np_float32 rt) (mesh_file files) of
        Inl e \<Rightarrow> Inl e
      | Inr verts0 \<Rightarrow>
     (case read_label_mapping (py_int rt) (label_map_file files) ''raw_category'' ''nyu40id'' of
        Inl e \<Rightarrow> Inl e
      | Inr label_map \<Rightarrow>
     (case meta_file files of
        None \<Rightarrow> Inl FileNotFoundError
      | Some lines \<Rightarrow>
     (case load_axis_alignment (py_float rt) lines of
        Inl e \<Rightarrow> Inl e
      | Inr axis_align_matrix \<Rightarrow>
     (let verts = apply_alignment (np_inner rt) (np_float32 rt) axis_align_matrix verts0 in
     (case read_aggregation (agg_file files) of
        Inl e \<Rightarrow> Inl e
      | Inr (object_id_to_segs, label_to_segs) \<Rightarrow>
     (case read_segmentation (seg_file files) of
        Inl e \<Rightarrow> Inl e
      | Inr (seg_to_verts, num_verts) \<Rightarrow>
     (case label_loop (np_legacy rt) label_map seg_to_verts label_to_segs (replicate num_verts 0) of
        Inl e \<Rightarrow> Inl e
      | Inr lids \<Rightarrow>
     (case instance_loop (np_legacy rt) seg_to_verts lids object_id_to_segs
             (replicate num_verts 0, []) of
        Inl e \<Rightarrow> Inl e
      | Inr (iids, o2l) \<Rightarrow>
     (let num_instances = length (remdups (map fst object_id_to_segs)) in
     (case bbox_loop (np_legacy rt) (np_float32 rt) verts iids o2l (map fst object_id_to_segs)
             (replicate num_instances (replicate 7 0)) of
        Inl e \<Rightarrow> Inl e
      | Inr bboxes \<Rightarrow>
          Inr \<lparr>mesh_vertices = verts, label_ids = lids, instance_ids = iids,
               instance_bboxes = bboxes, object_id_to_label_id = o2l\<rparr>)))))))))))"

subsection \<open>\<open>process_scene\<close> (lines 108-150)\<close>

text \<open>
  \<open>self\<close> is the record of the attributes \<open>process_scene\<close> reads; \<open>init\<close> gives them
  the values of \<open>__init__\<close>. The four output files of the scan are the record
  \<open>out_files\<close>, \<open>None\<close> for a file that does not exist. \<open>process_scene\<close> returns the
  exception it raised, if any, and the files it leaves behind; the four \<open>np.save\<close>
  calls are its last statements and are taken to succeed.
\<close>

record 'a scannet_process =
  max_num_point :: int
  DONOTCARE_IDS :: "'a list"
  OBJ_CLASS_IDS :: "int list"

definition init :: "int \<Rightarrow> 'a scannet_process" where
  "init max_points =
     \<lparr>max_num_point = max_points, DONOTCARE_IDS = [],
      OBJ_CLASS_IDS = [3, 4, 5, 6, 7, 8, 9, 10, 11, 12, 14, 16, 24, 28, 33, 34, 36, 39]\<rparr>"

record 'a out_files =
  vert_npy :: "'a list list option"
  sem_label_npy :: "32 word list option"
  ins_label_npy :: "32 word list option"
  bbox_npy :: "'a list list option"

text \<open>Lines 128-131: the vertices whose semantic label is not a don't-care id.\<close>

definition dontcare_filter :: "'a::linordered_field scannet_process \<Rightarrow> 'a list list \<times> 32 word list \<times> 32 word list
    \<Rightarrow> error + ('a list list \<times> 32 word list \<times> 32 word list)" where
  "dontcare_filter self arrays =
     (case arrays of (verts, semantic_labels, instance_labels) \<Rightarrow>
        (let keep = map (\<lambda>l. of_nat (unat l) \<notin> set (DONOTCARE_IDS self)) semantic_labels in
         case np_mask keep verts of
           Inl e \<Rightarrow> Inl e
         | Inr verts' \<Rightarrow>
             (case np_mask keep semantic_labels of
                Inl e \<Rightarrow> Inl e
              | Inr semantic_labels' \<Rightarrow>
                  (case np_mask keep instance_labels of
                     Inl e \<Rightarrow> Inl e
                   | Inr instance_labels' \<Rightarrow> Inr (verts', semantic_labels', instance_labels')))))"

text \<open>Lines 136-137: the boxes whose class (the last column) is an object class.\<close>

definition bbox_filter :: "'a::linordered_field scannet_process \<Rightarrow> 'a list list \<Rightarrow> 'a list list" where
  "bbox_filter self bboxes = filter (\<lambda>b. last b \<in> set (map of_int (OBJ_CLASS_IDS self))) bboxes"

text \<open>
  Lines 140-145. \<open>np.random.choice\<close> refuses a negative sample size; a size above \<open>N\<close>
  does not reach it.
\<close>

definition subsample :: "'a scannet_process \<Rightarrow> 'a builtins \<Rightarrow> 'a list list \<times> 32 word list \<times> 32 word list
    \<Rightarrow> error + ('a list list \<times> 32 word list \<times> 32 word list)" where
  "subsample self rt arrays =
     (case arrays of (verts, semantic_labels, instance_labels) \<Rightarrow>
        (let N = length verts in
         if int N > max_num_point self then
           (if max_num_point self < 0 then Inl ValueError
            else
              (let choices = np_random_choice rt N (nat (max_num_point self)) in
               case np_take choices verts of
                 Inl e \<Rightarrow> Inl e
               | Inr verts' \<Rightarrow>
                   (case np_take choices semantic_labels of
                      Inl e \<Rightarrow> Inl e
                    | Inr semantic_labels' \<Rightarrow>
                        (case np_take choices instance_labels of
                           Inl e \<Rightarrow> Inl e
                         | Inr instance_labels' \<Rightarrow> Inr (verts', semantic_labels', instance_labels')))))
         else Inr (verts, semantic_labels, instance_labels)))"

definition all_saved :: "'a out_files \<Rightarrow> bool" where
  "all_saved out =
     (vert_npy out \<noteq> None \<and> sem_label_npy out \<noteq> None \<and> ins_label_npy out \<noteq> None \<and> bbox_npy out \<noteq> None)"

definition process_scene :: "'a::linordered_field scannet_process \<Rightarrow> 'a builtins \<Rightarrow> 'a scan_files
    \<Rightarrow> 'a out_files \<Rightarrow> error option \<times> 'a out_files" where
  "process_scene self rt files out =
     (if all_saved out then (None, out)
      else
        (case export rt files of
           Inl e \<Rightarrow> (Some e, out)
         | Inr sc \<Rightarrow>
             (case dontcare_filter self (mesh_vertices sc, label_ids sc, instance_ids sc) of
                Inl e \<Rightarrow> (Some e, out)
              | Inr filtered \<Rightarrow>
                  (let bboxes = bbox_filter self (instance_bboxes sc) in
                   case subsample self rt filtered of
                     Inl e \<Rightarrow> (Some e, out)
                   | Inr (verts, semantic_labels, instance_labels) \<Rightarrow>
                       (None, \<lparr>vert_npy = Some verts, sem_label_npy = Some semantic_labels,
                               ins_label_npy = Some instance_labels, bbox_npy = Some bboxes\<rparr>)))))"

subsection \<open>The contract of the sampler, and concrete inputs\<close>

text \<open>
  \<open>np.random.choice(N, k, replace=False)\<close> returns \<open>k\<close> different indices below \<open>N\<close>
  whenever \<open>k \<le> N\<close>.
\<close>

definition sampler_ok :: "(nat \<Rightarrow> nat \<Rightarrow> nat list) \<Rightarrow> bool" where
  "sampler_ok choice =
     (\<forall>N k. k \<le> N \<longrightarrow> length (choice N k) = k \<and> distinct (choice N k) \<and> list_all (\<lambda>i. i < N) (choice N k))"

text \<open>
  The exact inner product, and the sum of the absolute values of its terms: the measure
  of the error bounds of a floating-point inner product.
\<close>

definition dot :: "'a::comm_semiring_1 list \<Rightarrow> 'a list \<Rightarrow> 'a" where
  "dot u w = sum_list (map2 (*) u w)"

definition absdot :: "'a::linordered_field list \<Rightarrow> 'a list \<Rightarrow> 'a" where
  "absdot u w = sum_list (map2 (\<lambda>a b. \<bar>a * b\<bar>) u w)"

text \<open>
  \<open>round_to p x\<close> is the number of \<open>p\<close> significant bits nearest to \<open>x\<close>, the even one
  of two nearest: with \<open>2 ^ e \<le> \<bar>x\<bar> < 2 ^ (e + 1)\<close> it is the nearest multiple of
  \<open>2 ^ (e - p + 1)\<close>. \<open>round_to 24\<close> is the rounding to \<open>float32\<close> of every number
  in the normal range of \<open>float32\<close>.
\<close>

definition round_even :: "rat \<Rightarrow> int" where
  "round_even q =
     (let f = \<lfloor>q\<rfloor>; d = q - of_int f
      in if d < 1 / 2 then f else if 1 / 2 < d then f + 1 else if even f then f else f + 1)"

definition exponent :: "rat \<Rightarrow> int" where
  "exponent x =
     (case quotient_of x of (a, b) \<Rightarrow>
        (let d = bitlen a - bitlen b in if 2 powi d \<le> x then d else d - 1))"

definition round_to :: "nat \<Rightarrow> rat \<Rightarrow> rat" where
  "round_to p x =
     (if x = 0 then 0
      else (let u = 2 powi (exponent \<bar>x\<bar> - (int p - 1))
            in sgn x * of_int (round_even (\<bar>x\<bar> / u)) * u))"

text \<open>
  The builtins of the examples: \<open>int()\<close> and \<open>float()\<close> on an optional minus sign followed
  by decimal digits (where Python agrees), NumPy 2, the rounding \<open>round_to 24\<close>, the
  exact inner product (the examples multiply and add numbers for which \<open>float64\<close> is
  exact), and the sampler that happens to draw the last \<open>k\<close> indices in descending
  order. \<open>ex_builtins_legacy\<close> is the same under a NumPy before 2.0.
\<close>

fun digits_value :: "string \<Rightarrow> nat \<Rightarrow> nat option" where
  "digits_value [] acc = Some acc"
| "digits_value (c # cs) acc =
     (case map_of [(CHR ''0'', 0), (CHR ''1'', 1), (CHR ''2'', 2), (CHR ''3'', 3), (CHR ''4'', 4),
                   (CHR ''5'', 5), (CHR ''6'', 6), (CHR ''7'', 7), (CHR ''8'', 8), (CHR ''9'', 9)] c of
        None \<Rightarrow> None
      | Some d \<Rightarrow> digits_value cs (10 * acc + d))"

definition ex_int :: "string \<Rightarrow> int option" where
  "ex_int s =
     (case s of
        [] \<Rightarrow> None
      | c # cs \<Rightarrow>
          if c = CHR ''-'' then (if cs = [] then None else map_option (\<lambda>n. - int n) (digits_value cs 0))
          else map_option int (digits_value s 0))"

definition ex_builtins :: "rat builtins" where
  "ex_builtins =
     \<lparr>py_int = ex_int, py_float = (\<lambda>s. map_option of_int (ex_int s)), np_legacy = False,
      np_float32 = round_to 24, np_inner = dot,
      np_random_choice = (\<lambda>N k. rev [N - k..<N])\<rparr>"

definition ex_builtins_legacy :: "rat builtins" where
  "ex_builtins_legacy = ex_builtins\<lparr>np_legacy := True\<rparr>"

text \<open>
  The scene of the specification's scenario: five vertices, segments \<open>[0,0,1,1,1]\<close>, one
  object \<open>chair\<close> on segment 1, \<open>chair\<close> mapped to 5. The alignment turns the scene by a
  quarter turn about the z axis and moves it by \<open>(2, 3, 4)\<close>.
\<close>

definition ex_points :: "rat vec3 list" where
  "ex_points = [(0, 0, 0), (1, 0, 0), (2, 0, 0), (2, 2, 0), (2, 2, 4)]"

definition ex_colors :: "rat vec3 list" where
  "ex_colors = [(255, 0, 0), (0, 255, 0), (0, 0, 255), (10, 20, 30), (7, 7, 7)]"

definition ex_matrix :: "rat list list" where
  "ex_matrix = [[0, -1, 0, 2], [1, 0, 0, 3], [0, 0, 1, 4], [0, 0, 0, 1]]"

definition ex_groups :: "seg_group list" where
  "ex_groups = [\<lparr>objectId = 0, label = ''chair'', segments = [1]\<rparr>]"

definition ex_files :: "rat scan_files" where
  "ex_files =
     \<lparr>mesh_file = Some (ex_points, ex_colors),
      agg_file = Some ex_groups,
      seg_file = Some [0, 0, 1, 1, 1],
      meta_file = Some [''sceneType = Office'' @ [CHR 0x0A],
                        ''axisAlignment = 0 -1 0 2 1 0 0 3 0 0 1 4 0 0 0 1 '' @ [CHR 0x0A]],
      label_map_file = Some [[(''id'', ''1''), (''raw_category'', ''chair''), (''nyu40id'', ''5'')]]\<rparr>"

definition no_files :: "rat out_files" where
  "no_files = \<lparr>vert_npy = None, sem_label_npy = None, ins_label_npy = None, bbox_npy = None\<rparr>"

text \<open>
  The vertex array of that scene before the alignment, what \<open>export\<close> returns for the
  scene, and what \<open>process_scene\<close> saves.
\<close>

definition ex_verts0 :: "rat list list" where
  "ex_verts0 = [[0, 0, 0, 255, 0, 0], [1, 0, 0, 0, 255, 0], [2, 0, 0, 0, 0, 255],
                [2, 2, 0, 10, 20, 30], [2, 2, 4, 7, 7, 7]]"

definition ex_scene :: "rat scene" where
  "ex_scene =
     \<lparr>mesh_vertices = [[2, 3, 4, 255, 0, 0], [2, 4, 4, 0, 255, 0], [2, 5, 4, 0, 0, 255],
                       [0, 5, 4, 10, 20, 30], [0, 5, 8, 7, 7, 7]],
      label_ids = [0, 0, 5, 5, 5], instance_ids = [0, 0, 1, 1, 1],
      instance_bboxes = [[1, 5, 6, 2, 0, 4, 5]],
      object_id_to_label_id = [(1, 5)]\<rparr>"

definition ex_saved :: "rat out_files" where
  "ex_saved =
     \<lparr>vert_npy = Some (mesh_vertices ex_scene), sem_label_npy = Some [0, 0, 5, 5, 5],
      ins_label_npy = Some [0, 0, 1, 1, 1], bbox_npy = Some [[1, 5, 6, 2, 0, 4, 5]]\<rparr>"

definition ex_saved3 :: "rat out_files" where
  "ex_saved3 =
     \<lparr>vert_npy = Some [[0, 5, 8, 7, 7, 7], [0, 5, 4, 10, 20, 30], [2, 5, 4, 0, 0, 255]],
      sem_label_npy = Some [5, 5, 5], ins_label_npy = Some [1, 1, 1],
      bbox_npy = Some [[1, 5, 6, 2, 0, 4, 5]]\<rparr>"

text \<open>
  A scene whose mesh has two vertices while its segmentation has one and its
  aggregation has no object; and the scene of the scenario with a metadata file that
  has no alignment line.
\<close>

definition ex_files_mismatch :: "rat scan_files" where
  "ex_files_mismatch =
     ex_files\<lparr>mesh_file := Some ([(0, 0, 0), (1, 0, 0)], [(255, 0, 0), (0, 255, 0)]),
              agg_file := Some [], seg_file := Some [7]\<rparr>"

definition ex_scene_mismatch :: "rat scene" where
  "ex_scene_mismatch =
     \<lparr>mesh_vertices = [[2, 3, 4, 255, 0, 0], [2, 4, 4, 0, 255, 0]],
      label_ids = [0], instance_ids = [0], instance_bboxes = [], object_id_to_label_id = []\<rparr>"

definition ex_files_unaligned :: "rat scan_files" where
  "ex_files_unaligned = ex_files\<lparr>meta_file := Some [''sceneType = Office'' @ [CHR 0x0A]]\<rparr>"

text \<open>
  A vertex at \<open>x = 2 ^ 24\<close> moved by 1 along the x axis: the sum \<open>2 ^ 24 + 1\<close> is no
  \<open>float32\<close>.
\<close>

definition ex_files_far :: "rat scan_files" where
  "ex_files_far =
     ex_files\<lparr>mesh_file := Some ([(16777216, 0, 0)], [(0, 0, 0)]),
              agg_file := Some [], seg_file := Some [0],
              meta_file := Some [''axisAlignment = 1 0 0 1 0 1 0 0 0 0 1 0 0 0 0 1'']\<rparr>"

definition ex_scene_far :: "rat scene" where
  "ex_scene_far =
     \<lparr>mesh_vertices = [[16777216, 0, 0, 0, 0, 0]],
      label_ids = [0], instance_ids = [0], instance_bboxes = [], object_id_to_label_id = []\<rparr>"

text \<open>
  An object of two vertices at \<open>x = 1\<close> and at the next \<open>float32\<close>,
  \<open>x = 1 + 2 ^ -23\<close>, under the identity alignment. And a scene of two objects with the
  \<open>objectId\<close> 1 and -1: the box of the second, whose id is 0, is written to row -1,
  which is the row of the first.
\<close>

definition ex_identity :: "string list" where
  "ex_identity = [''axisAlignment = 1 0 0 0 0 1 0 0 0 0 1 0 0 0 0 1'']"

definition ex_files_tight :: "rat scan_files" where
  "ex_files_tight =
     ex_files\<lparr>mesh_file := Some ([(1, 0, 0), (8388609 / 8388608, 0, 0)], [(0, 0, 0), (0, 0, 0)]),
              seg_file := Some [1, 1], meta_file := Some ex_identity\<rparr>"

definition ex_scene_tight :: "rat scene" where
  "ex_scene_tight =
     \<lparr>mesh_vertices = [[1, 0, 0, 0, 0, 0], [8388609 / 8388608, 0, 0, 0, 0, 0]],
      label_ids = [5, 5], instance_ids = [1, 1],
      instance_bboxes = [[1, 0, 0, 1 / 8388608, 0, 0, 5]],
      object_id_to_label_id = [(1, 5)]\<rparr>"

definition ex_files_minus1 :: "rat scan_files" where
  "ex_files_minus1 =
     \<lparr>mesh_file = Some ([(0, 0, 0), (50, 0, 0), (9, 0, 0)], [(0, 0, 0), (0, 0, 0), (0, 0, 0)]),
      agg_file = Some [\<lparr>objectId = 1, label = ''chair'', segments = [1]\<rparr>,
                       \<lparr>objectId = -1, label = ''table'', segments = [0]\<rparr>],
      seg_file = Some [0, 1, 2],
      meta_file = Some ex_identity,
      label_map_file = Some [[(''raw_category'', ''chair''), (''nyu40id'', ''5'')],
                             [(''raw_category'', ''table''), (''nyu40id'', ''7'')]]\<rparr>"

definition ex_scene_minus1 :: "rat scene" where
  "ex_scene_minus1 =
     \<lparr>mesh_vertices = [[0, 0, 0, 0, 0, 0], [50, 0, 0, 0, 0, 0], [9, 0, 0, 0, 0, 0]],
      label_ids = [7, 5, 0], instance_ids = [0, 2, 0],
      instance_bboxes = [[0, 0, 0, 0, 0, 0, 0], [9 / 2, 0, 0, 9, 0, 0, 7]],
      object_id_to_label_id = [(2, 5), (0, 7)]\<rparr>"

text \<open>
  The scene of the scenario with the \<open>objectId\<close> \<open>2 ^ 32 + 6\<close>: under a NumPy before 2.0
  the object id \<open>2 ^ 32 + 7\<close> is stored as 7.
\<close>

definition ex_files_wrap :: "rat scan_files" where
  "ex_files_wrap =
     ex_files\<lparr>agg_file := Some [\<lparr>objectId = 4294967302, label = ''chair'', segments = [1]\<rparr>]\<rparr>"

definition ex_scene_wrap :: "rat scene" where
  "ex_scene_wrap =
     \<lparr>mesh_vertices = mesh_vertices ex_scene,
      label_ids = [0, 0, 5, 5, 5], instance_ids = [0, 0, 7, 7, 7],
      instance_bboxes = [[0, 0, 0, 0, 0, 0, 0]],
      object_id_to_label_id = [(4294967303, 5)]\<rparr>"

text \<open>
  Three label tables: the keys \<open>1, 2\<close>; the keys \<open>chair, 2\<close>; the keys \<open>1, chair\<close>.
  And two objects that share the label \<open>chair\<close>.
\<close>

definition ex_rows_int :: "(string \<times> string) list list" where
  "ex_rows_int = [[(''raw_category'', ''1''), (''nyu40id'', ''5'')],
                  [(''raw_category'', ''2''), (''nyu40id'', ''6'')]]"

definition ex_rows_str :: "(string \<times> string) list list" where
  "ex_rows_str = [[(''raw_category'', ''chair''), (''nyu40id'', ''5'')],
                  [(''raw_category'', ''2''), (''nyu40id'', ''6'')]]"

definition ex_rows_mixed :: "(string \<times> string) list list" where
  "ex_rows_mixed = [[(''raw_category'', ''1''), (''nyu40id'', ''5'')],
                    [(''raw_category'', ''chair''), (''nyu40id'', ''6'')]]"

definition ex_groups_shared :: "seg_group list" where
  "ex_groups_shared = [\<lparr>objectId = 0, label = ''chair'', segments = [1]\<rparr>,
                       \<lparr>objectId = 1, label = ''chair'', segments = [2]\<rparr>]"

subsection \<open>Notions of the statements\<close>

text \<open>
  \<open>entry d k\<close> is the list a dictionary of lists holds for \<open>k\<close>, empty when \<open>k\<close> is no
  key. \<open>parses\<close> says that \<open>int()\<close> accepts every key of a string-keyed mapping, and
  \<open>int_keyed\<close> is the mapping with every key replaced by its integer.
\<close>

definition entry :: "('k \<times> 'v list) list \<Rightarrow> 'k \<Rightarrow> 'v list" where
  "entry d k = (case map_of d k of None \<Rightarrow> [] | Some v \<Rightarrow> v)"

definition parses :: "(string \<Rightarrow> int option) \<Rightarrow> (string \<times> int) list \<Rightarrow> bool" where
  "parses int_of mapping = list_all (\<lambda>(k, v). int_of k \<noteq> None) mapping"

definition int_keyed :: "(string \<Rightarrow> int option) \<Rightarrow> (string \<times> int) list \<Rightarrow> (key \<times> int) list" where
  "int_keyed int_of mapping = map (\<lambda>(k, v). (IntKey (the (int_of k)), v)) mapping"

text \<open>
  \<open>rounds_within \<epsilon> f\<close>: the rounding \<open>f\<close> has a relative error of at most \<open>\<epsilon>\<close>
  (\<open>float32\<close> in its normal range: \<open>2 ^ -24\<close>). \<open>inner_within \<gamma> f\<close>: the inner
  product \<open>f\<close> differs from the exact one by at most \<open>\<gamma>\<close> times the sum of the absolute
  values of the terms.

  \<open>bounds_within \<epsilon> pc b\<close>: on each of the three axes the extent of the box \<open>b\<close> is not
  negative and every point of \<open>pc\<close> lies between centre minus half the extent and
  centre plus half the extent, up to \<open>slack \<epsilon> pc\<close> of the axis, which is \<open>2 * \<epsilon>\<close>
  times the sum of the absolute values of the least and the greatest coordinate.
  \<open>bounds_within 0\<close> is the containment with no tolerance.
\<close>

definition rounds_within :: "'a::linordered_field \<Rightarrow> ('a \<Rightarrow> 'a) \<Rightarrow> bool" where
  "rounds_within \<epsilon> f = (\<forall>x. \<bar>f x - x\<bar> \<le> \<epsilon> * \<bar>x\<bar>)"

definition inner_within :: "'a::linordered_field \<Rightarrow> ('a list \<Rightarrow> 'a list \<Rightarrow> 'a) \<Rightarrow> bool" where
  "inner_within \<gamma> f = (\<forall>u w. \<bar>f u w - dot u w\<bar> \<le> \<gamma> * absdot u w)"

definition slack :: "'a::linordered_field \<Rightarrow> 'a list list \<Rightarrow> nat \<Rightarrow> 'a" where
  "slack \<epsilon> pc a = 2 * \<epsilon> * (\<bar>amin (map (\<lambda>p. p ! a) pc)\<bar> + \<bar>amax (map (\<lambda>p. p ! a) pc)\<bar>)"

definition bounds_within :: "'a::linordered_field \<Rightarrow> 'a list list \<Rightarrow> 'a list \<Rightarrow> bool" where
  "bounds_within \<epsilon> pc b =
     list_all (\<lambda>a. 0 \<le> b ! (a + 3) \<and>
                   list_all (\<lambda>p. b ! a - b ! (a + 3) / 2 - slack \<epsilon> pc a \<le> p ! a \<and>
                                 p ! a \<le> b ! a + b ! (a + 3) / 2 + slack \<epsilon> pc a) pc)
       [0, 1, 2]"

section \<open>Properties\<close>

subsection \<open>\<open>read_segmentation\<close>\<close>

lemma seg_loop_keys: "fst ` set (seg_loop xs i d) = fst ` set d \<union> set xs"
  by (induction xs arbitrary: i d)
     (auto simp: dom_map_of_conv_image_fst [symmetric] update_conv' split: option.splits)

lemma seg_loop_distinct: "distinct (map fst d) \<Longrightarrow> distinct (map fst (seg_loop xs i d))"
  by (induction xs arbitrary: i d) (auto simp: distinct_update split: option.splits)

lemma seg_loop_None: "map_of (seg_loop xs i d) s = None \<longleftrightarrow> s \<notin> fst ` set d \<union> set xs"
  using seg_loop_keys [of xs i d] by (metis map_of_eq_None_iff)

lemma entry_step:
  "entry (case map_of d x of Some verts \<Rightarrow> AList.update x (verts @ [i]) d
                            | None \<Rightarrow> AList.update x [i] d) s
   = entry d s @ (if x = s then [i] else [])"
  by (simp add: entry_def update_conv' split: option.splits)

text \<open>
  The loop invariant: when the loop has read \<open>xs\<close> from position \<open>i\<close> on, the list of
  a segment is its old list followed by the positions of the segment in \<open>xs\<close>, ascending.
\<close>

lemma seg_loop_entry:
  "entry (seg_loop xs i d) s = entry d s @ [j \<leftarrow> [i..<i + length xs]. xs ! (j - i) = s]"
proof (induction xs arbitrary: i d)
  case Nil
  then show ?case by simp
next
  case (Cons x xs)
  define m where "m = Suc i + length xs"
  have shift: "[j \<leftarrow> [Suc i..<m]. (y # xs) ! (j - i) = s] = [j \<leftarrow> [Suc i..<m]. xs ! (j - Suc i) = s]" for y
  proof (rule filter_cong [OF refl])
    fix j assume "j \<in> set [Suc i..<m]"
    then have "j - i = Suc (j - Suc i)" by auto
    then show "((y # xs) ! (j - i) = s) = (xs ! (j - Suc i) = s)" by simp
  qed
  have "i < m" by (simp add: m_def)
  then have upt: "[i..<m] = i # [Suc i..<m]"
    by (rule upt_conv_Cons)
  have m: "i + length (x # xs) = m" by (simp add: m_def)
  have "entry (seg_loop (x # xs) i d) s
      = (entry d s @ (if x = s then [i] else [])) @ [j \<leftarrow> [Suc i..<m]. xs ! (j - Suc i) = s]"
    unfolding m_def by (simp only: seg_loop.simps Cons.IH entry_step)
  also have "\<dots> = entry d s @ [j \<leftarrow> [i..<m]. (x # xs) ! (j - i) = s]"
    unfolding upt by (simp add: shift)
  finally show ?case unfolding m .
qed

lemma read_segmentation_values:
  assumes "read_segmentation (Some segIndices) = Inr (seg_to_verts, num_verts)"
    and "map_of seg_to_verts s = Some verts"
  shows "verts = [j \<leftarrow> [0..<num_verts]. segIndices ! j = s]"
  using assms seg_loop_entry [of segIndices 0 "[]" s]
  by (auto simp: read_segmentation_def entry_def)

lemma read_segmentation_keys:
  assumes "read_segmentation (Some segIndices) = Inr (seg_to_verts, num_verts)"
    and "s \<in> set segIndices"
  shows "\<exists>verts. map_of seg_to_verts s = Some verts"
  using assms seg_loop_None [of segIndices 0 "[]" s]
  by (auto simp: read_segmentation_def)

text \<open>
  Claim C8. The map of \<open>read_segmentation\<close> inverts the array \<open>segIndices\<close>: the vertex
  count is the length of the array, no segment id is a key twice, the list of a segment
  is the ascending list of the positions that hold it, and so a vertex \<open>i\<close> below the
  count is in the list of a segment exactly when that segment is \<open>segIndices[i]\<close>.
\<close>

theorem read_segmentation_inverts:
  assumes "read_segmentation (Some segIndices) = Inr (seg_to_verts, num_verts)"
  shows "num_verts = length segIndices \<and> distinct (map fst seg_to_verts) \<and>
    (\<forall>s verts. map_of seg_to_verts s = Some verts \<longrightarrow>
        verts = [j \<leftarrow> [0..<num_verts]. segIndices ! j = s]) \<and>
    (\<forall>i<num_verts. \<forall>s.
        (\<exists>verts. map_of seg_to_verts s = Some verts \<and> i \<in> set verts) \<longleftrightarrow> s = segIndices ! i)"
proof -
  from assms have stv: "seg_to_verts = seg_loop segIndices 0 []" and n: "num_verts = length segIndices"
    by (auto simp: read_segmentation_def)
  note vals = read_segmentation_values [OF assms]
  have "(\<exists>verts. map_of seg_to_verts s = Some verts \<and> i \<in> set verts) \<longleftrightarrow> s = segIndices ! i"
    if "i < num_verts" for i s
  proof
    assume "\<exists>verts. map_of seg_to_verts s = Some verts \<and> i \<in> set verts"
    then obtain verts where "map_of seg_to_verts s = Some verts" "i \<in> set verts" by blast
    with vals [of s verts] show "s = segIndices ! i" by auto
  next
    assume s: "s = segIndices ! i"
    with that n have "s \<in> set segIndices" by simp
    then obtain verts where v: "map_of seg_to_verts s = Some verts"
      using read_segmentation_keys [OF assms] by blast
    with vals [of s verts] that s have "i \<in> set verts" by simp
    with v show "\<exists>verts. map_of seg_to_verts s = Some verts \<and> i \<in> set verts" by blast
  qed
  moreover have "distinct (map fst seg_to_verts)"
    unfolding stv by (rule seg_loop_distinct) simp
  ultimately show ?thesis using n vals by blast
qed

theorem read_segmentation_inverts_witness:
  "read_segmentation (Some [0, 0, 1, 1, 1]) = Inr ([(0, [0, 1]), (1, [2, 3, 4])], 5)
   \<and> (\<exists>verts. map_of [(0 :: int, [0, 1]), (1, [2, 3, 4 :: nat])] 1 = Some verts \<and> 3 \<in> set verts)
   \<and> \<not> (\<exists>verts. map_of [(0 :: int, [0, 1]), (1, [2, 3, 4 :: nat])] 0 = Some verts \<and> 3 \<in> set verts)"
proof -
  have run: "read_segmentation (Some [0, 0, 1, 1, 1]) = Inr ([(0, [0, 1]), (1, [2, 3, 4])], 5)"
    by (simp add: read_segmentation_def)
  from read_segmentation_inverts [OF run]
  have inv: "\<forall>i<5. \<forall>s. (\<exists>verts. map_of [(0 :: int, [0, 1]), (1, [2, 3, 4 :: nat])] s = Some verts \<and> i \<in> set verts)
      \<longleftrightarrow> s = [0, 0, 1, 1, 1] ! i"
    by blast
  have "(3 :: nat) < 5" by simp
  with inv have "\<forall>s. (\<exists>verts. map_of [(0 :: int, [0, 1]), (1, [2, 3, 4 :: nat])] s = Some verts \<and> 3 \<in> set verts)
      \<longleftrightarrow> s = [0, 0, 1, 1, 1] ! 3"
    by blast
  then have "\<forall>s. (\<exists>verts. map_of [(0 :: int, [0, 1]), (1, [2, 3, 4 :: nat])] s = Some verts \<and> 3 \<in> set verts)
      \<longleftrightarrow> s = 1"
    by simp
  with run show ?thesis by simp
qed

subsection \<open>\<open>read_label_mapping\<close>\<close>

text \<open>
  The dictionary comprehension of line 227: when \<open>int()\<close> accepts every key it returns
  the dictionary of the integer keys, a later item winning where two keys have the same
  integer; otherwise it raises.
\<close>

lemma rekey_parses:
  "parses int_of items \<Longrightarrow>
   \<exists>m. rekey int_of items acc = Inr m \<and> map_of m = map_of (rev (int_keyed int_of items) @ acc)
     \<and> fst ` set m = fst ` set (int_keyed int_of items) \<union> fst ` set acc"
proof (induction items arbitrary: acc)
  case Nil
  then show ?case by (simp add: int_keyed_def)
next
  case (Cons item items)
  obtain k v where item: "item = (k, v)" by (cases item)
  from Cons.prems item obtain n where n: "int_of k = Some n" and rest: "parses int_of items"
    by (auto simp: parses_def)
  from Cons.IH [OF rest, of "AList.update (IntKey n) v acc"]
  obtain m where m: "rekey int_of items (AList.update (IntKey n) v acc) = Inr m"
    "map_of m = map_of (rev (int_keyed int_of items) @ AList.update (IntKey n) v acc)"
    "fst ` set m = fst ` set (int_keyed int_of items) \<union> fst ` set (AList.update (IntKey n) v acc)"
    by blast
  have "map_of m = map_of (rev (int_keyed int_of (item # items)) @ acc)"
    by (simp add: m(2) item n int_keyed_def map_of_append update_conv' map_add_def fun_eq_iff
          split: option.splits)
  moreover have "fst ` set m = fst ` set (int_keyed int_of (item # items)) \<union> fst ` set acc"
    using m(3) by (auto simp: item n int_keyed_def dom_map_of_conv_image_fst [symmetric] update_conv')
  ultimately show ?case using m(1) by (simp add: item n)
qed

lemma rekey_fails: "\<not> parses int_of items \<Longrightarrow> rekey int_of items acc = Inl ValueError"
  by (induction items arbitrary: acc) (auto simp: parses_def split: option.splits)

text \<open>
  Claim C4, as amended. Let \<open>mapping\<close> be the string-keyed dictionary the rows give.
  \<open>read_label_mapping\<close> returns the integer-keyed dictionary exactly when \<open>int()\<close>
  accepts every key. When \<open>int()\<close> rejects the first key, the string-keyed dictionary
  is returned as it is. When \<open>int()\<close> accepts the first key and rejects another one,
  \<open>read_label_mapping\<close> raises \<open>ValueError\<close>: only the first key is probed.
\<close>

theorem read_label_mapping_rekeys:
  assumes "build_mapping int_of label_from label_to rows [] = Inr mapping" and "mapping \<noteq> []"
  shows "(parses int_of mapping \<longleftrightarrow>
           (\<exists>m. read_label_mapping int_of (Some rows) label_from label_to = Inr m
               \<and> map_of m = map_of (rev (int_keyed int_of mapping))
               \<and> fst ` set m = fst ` set (int_keyed int_of mapping)))
      \<and> (int_of (fst (hd mapping)) = None \<longrightarrow>
           read_label_mapping int_of (Some rows) label_from label_to = Inr (str_keyed mapping))
      \<and> (int_of (fst (hd mapping)) \<noteq> None \<and> \<not> parses int_of mapping \<longrightarrow>
           read_label_mapping int_of (Some rows) label_from label_to = Inl ValueError)"
proof -
  from assms(2) obtain k0 v0 rest where mp: "mapping = (k0, v0) # rest"
    by (cases mapping) auto
  show ?thesis
  proof (cases "int_of k0")
    case None
    then have r: "read_label_mapping int_of (Some rows) label_from label_to = Inr (str_keyed mapping)"
      by (simp add: read_label_mapping_def assms(1) mp represents_int_def)
    have "\<not> parses int_of mapping" using None by (simp add: parses_def mp)
    moreover have "fst ` set (str_keyed mapping) \<noteq> fst ` set (int_keyed int_of mapping)"
      by (auto simp: mp str_keyed_def int_keyed_def)
    ultimately show ?thesis using r None by (auto simp: mp)
  next
    case (Some n)
    then have r: "read_label_mapping int_of (Some rows) label_from label_to = rekey int_of mapping []"
      by (simp add: read_label_mapping_def assms(1) mp represents_int_def)
    show ?thesis
    proof (cases "parses int_of mapping")
      case True
      from rekey_parses [OF True, of "[]"] show ?thesis using True Some r by (auto simp: mp)
    next
      case False
      from rekey_fails [OF False, of "[]"] show ?thesis using False Some r by (auto simp: mp)
    qed
  qed
qed

text \<open>
  The claim as stated fails on the table with the keys \<open>1, chair\<close>: a key is not an
  integer, and the string-keyed dictionary is not returned.
\<close>

theorem read_label_mapping_mixed_keys:
  "build_mapping ex_int ''raw_category'' ''nyu40id'' ex_rows_mixed [] = Inr [(''1'', 5), (''chair'', 6)]
   \<and> ex_int ''chair'' = None
   \<and> read_label_mapping ex_int (Some ex_rows_mixed) ''raw_category'' ''nyu40id'' = Inl ValueError"
  by code_simp

theorem read_label_mapping_rekeys_witness:
  "build_mapping ex_int ''raw_category'' ''nyu40id'' ex_rows_int [] = Inr [(''1'', 5), (''2'', 6)]
   \<and> parses ex_int [(''1'', 5), (''2'', 6)]
   \<and> (\<exists>m. read_label_mapping ex_int (Some ex_rows_int) ''raw_category'' ''nyu40id'' = Inr m
          \<and> map_of m = map_of (rev (int_keyed ex_int [(''1'', 5), (''2'', 6)]))
          \<and> fst ` set m = fst ` set (int_keyed ex_int [(''1'', 5), (''2'', 6)]))
   \<and> build_mapping ex_int ''raw_category'' ''nyu40id'' ex_rows_str [] = Inr [(''chair'', 5), (''2'', 6)]
   \<and> ex_int (fst (hd [(''chair'', 5 :: int), (''2'', 6)])) = None
   \<and> read_label_mapping ex_int (Some ex_rows_str) ''raw_category'' ''nyu40id''
       = Inr (str_keyed [(''chair'', 5), (''2'', 6)])
   \<and> build_mapping ex_int ''raw_category'' ''nyu40id'' ex_rows_mixed [] = Inr [(''1'', 5), (''chair'', 6)]
   \<and> ex_int (fst (hd [(''1'', 5 :: int), (''chair'', 6)])) \<noteq> None
   \<and> \<not> parses ex_int [(''1'', 5), (''chair'', 6)]
   \<and> read_label_mapping ex_int (Some ex_rows_mixed) ''raw_category'' ''nyu40id'' = Inl ValueError"
proof -
  have a: "build_mapping ex_int ''raw_category'' ''nyu40id'' ex_rows_int [] = Inr [(''1'', 5), (''2'', 6)]"
    by code_simp
  have pa: "parses ex_int [(''1'', 5), (''2'', 6)]" by code_simp
  have b: "build_mapping ex_int ''raw_category'' ''nyu40id'' ex_rows_str [] = Inr [(''chair'', 5), (''2'', 6)]"
    by code_simp
  have pb: "ex_int (fst (hd [(''chair'', 5 :: int), (''2'', 6)])) = None" by code_simp
  have c: "build_mapping ex_int ''raw_category'' ''nyu40id'' ex_rows_mixed [] = Inr [(''1'', 5), (''chair'', 6)]"
    by code_simp
  have pc: "ex_int (fst (hd [(''1'', 5 :: int), (''chair'', 6)])) \<noteq> None"
    "\<not> parses ex_int [(''1'', 5), (''chair'', 6)]" by code_simp+
  have ne: "[(''1'', 5 :: int), (''2'', 6)] \<noteq> []" "[(''chair'', 5 :: int), (''2'', 6)] \<noteq> []"
    "[(''1'', 5 :: int), (''chair'', 6)] \<noteq> []" by simp_all
  from read_label_mapping_rekeys [OF a ne(1)] pa
  have ra: "\<exists>m. read_label_mapping ex_int (Some ex_rows_int) ''raw_category'' ''nyu40id'' = Inr m
          \<and> map_of m = map_of (rev (int_keyed ex_int [(''1'', 5), (''2'', 6)]))
          \<and> fst ` set m = fst ` set (int_keyed ex_int [(''1'', 5), (''2'', 6)])"
    by blast
  from read_label_mapping_rekeys [OF b ne(2)] pb
  have rb: "read_label_mapping ex_int (Some ex_rows_str) ''raw_category'' ''nyu40id''
       = Inr (str_keyed [(''chair'', 5), (''2'', 6)])"
    by blast
  from read_label_mapping_rekeys [OF c ne(3)] pc
  have rc: "read_label_mapping ex_int (Some ex_rows_mixed) ''raw_category'' ''nyu40id'' = Inl ValueError"
    by blast
  from a pa ra b pb rb c pc rc show ?thesis by blast
qed

text \<open>
  Claim C10. On a table with no data row the loop leaves the dictionary empty, and
  \<open>list(mapping.keys())[0]\<close> raises \<open>IndexError\<close>: no mapping is returned.
\<close>

theorem read_label_mapping_no_rows:
  "read_label_mapping int_of (Some []) label_from label_to = Inl IndexError"
  by (simp add: read_label_mapping_def)

subsection \<open>\<open>read_aggregation\<close>\<close>

text \<open>
  Claim C2 does not hold of the code. Two objects share the label \<open>chair\<close>: the list
  stored for the first object is the list stored for the label, so \<open>extend\<close> adds the
  segment of the second object to it, and the first object is returned with the segments
  \<open>[1, 2]\<close> where its group has \<open>[1]\<close>.
\<close>

theorem read_aggregation_shared_label:
  "read_aggregation (Some ex_groups_shared) = Inr ([(1, [1, 2]), (2, [2])], [(''chair'', [1, 2])])"
  by code_simp

text \<open>The keys are right: they are the object ids plus one, each once.\<close>

lemma agg_loop_keys:
  "agg_loop gs i (h, o2s, l2s) = (h', o2s', l2s') \<Longrightarrow>
   fst ` set o2s' = fst ` set o2s \<union> (\<lambda>g. objectId g + 1) ` set gs \<and>
   (distinct (map fst o2s) \<longrightarrow> distinct (map fst o2s'))"
proof (induction gs arbitrary: i h o2s l2s)
  case Nil
  then show ?case by simp
next
  case (Cons g gs)
  let ?o = "AList.update (objectId g + 1) i o2s"
  from Cons.prems obtain h1 l1 where "agg_loop gs (Suc i) (h1, ?o, l1) = (h', o2s', l2s')"
    by (auto simp: Let_def split: option.splits)
  from Cons.IH [OF this] show ?case
    by (auto simp: dom_map_of_conv_image_fst [symmetric] update_conv' distinct_update)
qed

lemma deref_keys: "map fst (deref h d) = map fst d"
  by (simp add: deref_def case_prod_unfold o_def)

lemma read_aggregation_keys:
  assumes "read_aggregation (Some segGroups) = Inr (o2s, l2s)"
  shows "set (map fst o2s) = (\<lambda>g. objectId g + 1) ` set segGroups \<and> distinct (map fst o2s)
     \<and> length o2s \<le> length segGroups"
proof -
  from assms obtain h refs l where
    run: "agg_loop segGroups 0 (map segments segGroups, [], []) = (h, refs, l)" and
    o2s: "o2s = deref h refs"
    by (auto simp: read_aggregation_def split: prod.splits)
  from agg_loop_keys [OF run] have k: "set (map fst refs) = (\<lambda>g. objectId g + 1) ` set segGroups"
    and d: "distinct (map fst refs)" by auto
  have "length o2s = card (set (map fst refs))"
    using distinct_card [OF d] by (simp add: o2s deref_def)
  also have "\<dots> \<le> card (set segGroups)" unfolding k by (rule card_image_le) simp
  also have "\<dots> \<le> length segGroups" by (rule card_length)
  finally show ?thesis using k d by (simp add: o2s deref_keys)
qed

subsection \<open>The rounding of the examples\<close>

lemma round_even_error: "\<bar>of_int (round_even q) - q\<bar> \<le> 1 / 2"
proof -
  have f: "of_int \<lfloor>q\<rfloor> \<le> q" "q < of_int \<lfloor>q\<rfloor> + 1" by linarith+
  show ?thesis
    unfolding round_even_def Let_def using f by (auto simp: abs_le_iff)
qed

lemma exponent_le:
  assumes "0 < x"
  shows "2 powi (exponent x) \<le> x"
proof -
  obtain a b where q: "quotient_of x = (a, b)" by (cases "quotient_of x")
  then have b: "0 < b" and x: "x = of_int a / of_int b"
    by (auto simp: quotient_of_denom_pos quotient_of_div)
  with assms have a: "0 < a" by (simp add: zero_less_divide_iff)
  define d where "d = bitlen a - bitlen b"
  show ?thesis
  proof (cases "2 powi d \<le> x")
    case True
    then show ?thesis by (simp add: exponent_def q d_def)
  next
    case False
    from bitlen_bounds [OF a] have la: "2 ^ nat (bitlen a - 1) \<le> a" by simp
    from bitlen_bounds [OF b] have ub: "b < 2 ^ nat (bitlen b)" by simp
    have pa: "1 \<le> bitlen a" "1 \<le> bitlen b" using a b by (auto simp: bitlen_alt_def)
    have "(2::rat) powi (d - 1) = 2 powi (bitlen a - 1) / 2 powi (bitlen b)"
      by (simp add: d_def power_int_diff)
    also have "\<dots> = 2 ^ nat (bitlen a - 1) / 2 ^ nat (bitlen b)"
      using pa by (simp add: power_int_def)
    also have "\<dots> \<le> of_int a / of_int b"
    proof -
      have "(2::rat) ^ nat (bitlen a - 1) \<le> of_int a"
        using la by (metis of_int_le_iff of_int_numeral of_int_power)
      moreover have "of_int b \<le> (2::rat) ^ nat (bitlen b)"
        using ub by (metis less_imp_le of_int_le_iff of_int_numeral of_int_power)
      moreover have "(0::rat) < of_int b" using b by simp
      moreover have "(0::rat) \<le> of_int a" using a by simp
      ultimately show ?thesis by (intro frac_le)
    qed
    finally have "2 powi (d - 1) \<le> x" by (simp add: x)
    with False show ?thesis by (simp add: exponent_def q d_def)
  qed
qed

text \<open>The relative error of \<open>round_to p\<close> is at most \<open>2 ^ -p\<close>.\<close>

lemma round_to_error:
  assumes "0 < p"
  shows "\<bar>round_to p x - x\<bar> \<le> \<bar>x\<bar> / 2 ^ p"
proof (cases "x = 0")
  case True
  then show ?thesis by (simp add: round_to_def)
next
  case False
  define e where "e = exponent \<bar>x\<bar>"
  define u :: rat where "u = 2 powi (e - (int p - 1))"
  define n where "n = round_even (\<bar>x\<bar> / u)"
  have u: "0 < u" by (simp add: u_def)
  have r: "round_to p x = sgn x * of_int n * u"
    using False by (simp add: round_to_def Let_def n_def u_def e_def)
  have "round_to p x - x = sgn x * (of_int n * u - \<bar>x\<bar>)"
    using mult_sgn_abs [of x] by (simp add: r algebra_simps)
  then have "\<bar>round_to p x - x\<bar> = \<bar>sgn x * (of_int n * u - \<bar>x\<bar>)\<bar>"
    by simp
  also have "\<dots> = \<bar>of_int n * u - \<bar>x\<bar>\<bar>"
    using False by (simp add: abs_mult)
  also have "\<dots> = \<bar>of_int n - \<bar>x\<bar> / u\<bar> * u"
  proof -
    have "of_int n * u - \<bar>x\<bar> = (of_int n - \<bar>x\<bar> / u) * u"
      using u by (simp add: algebra_simps)
    then show ?thesis using u by (simp only: abs_mult abs_of_pos)
  qed
  also have "\<dots> \<le> (1 / 2) * u"
    using round_even_error [of "\<bar>x\<bar> / u"] u by (intro mult_right_mono) (auto simp: n_def)
  finally have bound: "\<bar>round_to p x - x\<bar> \<le> (1 / 2) * u" .
  have half: "(1 / 2) * u = 2 powi e / 2 ^ p"
  proof -
    have "(2::rat) powi (int p - 1) = 2 powi int p / 2 powi 1"
      by (rule power_int_diff) simp
    then have h: "(2::rat) powi (int p - 1) = 2 ^ p / 2" by simp
    have "u = 2 powi e / 2 powi (int p - 1)"
      unfolding u_def by (rule power_int_diff) simp
    then show ?thesis unfolding h by simp
  qed
  have "2 powi e / 2 ^ p \<le> \<bar>x\<bar> / 2 ^ p"
    using exponent_le [of "\<bar>x\<bar>"] False by (intro divide_right_mono) (auto simp: e_def)
  moreover from bound have "\<bar>round_to p x - x\<bar> \<le> 2 powi e / 2 ^ p"
    by (simp only: half)
  ultimately show ?thesis by (rule order_trans [rotated])
qed

lemma ex_rounds_within: "rounds_within (1 / 2 ^ 24) (np_float32 ex_builtins)"
  using round_to_error [of 24] by (simp add: rounds_within_def ex_builtins_def)

lemma ex_rounds_within_legacy: "rounds_within (1 / 2 ^ 24) (np_float32 ex_builtins_legacy)"
  using ex_rounds_within by (simp add: ex_builtins_legacy_def)

lemma absdot_nonneg: "0 \<le> absdot u w"
  unfolding absdot_def by (rule sum_list_nonneg) (auto simp: set_zip)

lemma ex_inner_within: "inner_within 0 (np_inner ex_builtins)"
  by (simp add: inner_within_def ex_builtins_def)

subsection \<open>The axis alignment\<close>

lemma reshape44_shape:
  assumes "reshape44 xs = Inr M"
  shows "\<exists>a b c d e f g h i j k l m n p q.
    M = [[a, b, c, d], [e, f, g, h], [i, j, k, l], [m, n, p, q]]"
  using assms
  by (auto simp: reshape44_def numeral_eq_Suc length_Suc_conv split: if_splits)

lemma load_axis_alignment_shape:
  assumes "load_axis_alignment float_of lines = Inr M"
  shows "\<exists>a b c d e f g h i j k l m n p q.
    M = [[a, b, c, d], [e, f, g, h], [i, j, k, l], [m, n, p, q]]"
  using assms
  by (auto simp: load_axis_alignment_def split: option.splits sum.splits dest: reshape44_shape)

lemma apply_alignment_map:
  "apply_alignment inner float32 M V =
   map (\<lambda>v. map float32 (take 3 (map (\<lambda>col. inner (take 3 v @ [1]) col) (transpose (transpose M))))
            @ drop 3 v) V"
  by (simp add: apply_alignment_def np_dot_def Let_def zip_map2 zip_same_conv_map o_def)

lemma transpose_transpose44:
  "transpose (transpose [[a, b, c, d], [e, f, g, h], [i, j, k, l], [m, n, p, q]])
   = [[a, b, c, d], [e, f, g, h], [i, j, k, l], [m, n, p, q]]"
  by (simp add: transpose.simps)

lemma apply_alignment_length: "length (apply_alignment inner float32 M V) = length V"
  by (simp add: apply_alignment_map)

lemma read_mesh_Inr:
  "read_mesh_vertices_rgb float32 file = Inr verts \<Longrightarrow>
   \<exists>points colors. file = Some (points, colors) \<and> length verts = length points \<and>
     list_all (\<lambda>v. length v = 6) verts"
  by (auto simp: read_mesh_vertices_rgb_def list_all_iff set_zip split: option.splits if_splits)

text \<open>
  Each vertex \<open>v\<close> of six numbers becomes the rounded inner products of
  \<open>[v[0], v[1], v[2], 1]\<close> with the first three rows of the matrix (the columns of its
  transpose), followed by \<open>v[3], v[4], v[5]\<close>.
\<close>

lemma apply_alignment_rows:
  assumes "M = [[a, b, c, d], [e, f, g, h], [i, j, k, l], [m, n, p, q]]"
    and "list_all (\<lambda>v. length v = 6) V"
  shows "apply_alignment inner float32 M V =
    map (\<lambda>v. [float32 (inner [v ! 0, v ! 1, v ! 2, 1] (M ! 0)),
              float32 (inner [v ! 0, v ! 1, v ! 2, 1] (M ! 1)),
              float32 (inner [v ! 0, v ! 1, v ! 2, 1] (M ! 2)),
              v ! 3, v ! 4, v ! 5]) V"
  unfolding apply_alignment_map
proof (rule map_cong [OF refl])
  fix v assume "v \<in> set V"
  with assms(2) have "length v = 6" by (simp add: list_all_iff)
  then obtain x y z r g' b' where v: "v = [x, y, z, r, g', b']"
    by (auto simp: numeral_eq_Suc length_Suc_conv)
  show "map float32 (take 3 (map (\<lambda>col. inner (take 3 v @ [1]) col) (transpose (transpose M))))
            @ drop 3 v =
        [float32 (inner [v ! 0, v ! 1, v ! 2, 1] (M ! 0)),
         float32 (inner [v ! 0, v ! 1, v ! 2, 1] (M ! 1)),
         float32 (inner [v ! 0, v ! 1, v ! 2, 1] (M ! 2)),
         v ! 3, v ! 4, v ! 5]"
    unfolding assms(1) transpose_transpose44 v by (simp add: numeral_eq_Suc)
qed

lemma dot_le_absdot: "\<bar>dot u w\<bar> \<le> absdot (u :: 'a::linordered_field list) w"
  unfolding dot_def absdot_def
proof (induction u arbitrary: w)
  case Nil
  then show ?case by simp
next
  case (Cons a u)
  show ?case
  proof (cases w)
    case Nil
    then show ?thesis by simp
  next
    case (Cons b w')
    have "\<bar>a * b + sum_list (map2 (*) u w')\<bar> \<le> \<bar>a * b\<bar> + \<bar>sum_list (map2 (*) u w')\<bar>"
      by (rule abs_triangle_ineq)
    with Cons.IH [of w'] show ?thesis by (simp add: Cons)
  qed
qed

text \<open>
  The stored number against the exact product, for a rounding of relative error \<open>\<epsilon>\<close>
  and an inner product of relative error \<open>\<gamma>\<close>.
\<close>

lemma rounded_inner_error:
  fixes \<epsilon> :: "'a::linordered_field"
  assumes "rounds_within \<epsilon> f" "inner_within \<gamma> g" "0 \<le> \<epsilon>"
  shows "\<bar>f (g u w) - dot u w\<bar> \<le> (\<epsilon> + \<gamma> + \<epsilon> * \<gamma>) * absdot u w"
proof -
  define y where "y = g u w"
  define D where "D = dot u w"
  define A where "A = absdot u w"
  have 1: "\<bar>f y - y\<bar> \<le> \<epsilon> * \<bar>y\<bar>" using assms(1) by (simp add: rounds_within_def)
  have 2: "\<bar>y - D\<bar> \<le> \<gamma> * A" using assms(2) by (simp add: inner_within_def y_def D_def A_def)
  have 3: "\<bar>D\<bar> \<le> A" unfolding D_def A_def by (rule dot_le_absdot)
  from 2 3 have "\<bar>y\<bar> \<le> A + \<gamma> * A" by linarith
  with assms(3) have "\<epsilon> * \<bar>y\<bar> \<le> \<epsilon> * (A + \<gamma> * A)" by (rule mult_left_mono [rotated])
  with 1 2 have "\<bar>f y - D\<bar> \<le> \<epsilon> * (A + \<gamma> * A) + \<gamma> * A" by linarith
  also have "\<dots> = (\<epsilon> + \<gamma> + \<epsilon> * \<gamma>) * A" by (simp add: algebra_simps)
  finally show ?thesis by (simp add: y_def D_def A_def)
qed

subsection \<open>The loops of \<open>export\<close>\<close>

lemma fold_update_length: "length (fold (\<lambda>i a. a[i := w]) verts arr) = length arr"
  by (induction verts arbitrary: arr) auto

lemma fold_update_set: "set (fold (\<lambda>i a. a[i := w]) verts arr) \<subseteq> insert w (set arr)"
proof (induction verts arbitrary: arr)
  case Nil
  then show ?case by auto
next
  case (Cons i verts)
  have "set (arr[i := w]) \<subseteq> insert w (set arr)" by (rule set_update_subset_insert)
  with Cons.IH [of "arr[i := w]"] show ?case by auto
qed

lemma assign_Inr:
  assumes "assign legacy arr verts v = Inr arr'"
  shows "length arr' = length arr \<and> (\<exists>w. to_uint32 legacy v = Inr w \<and> set arr' \<subseteq> insert w (set arr))"
  using assms fold_update_set [of _ verts arr]
  by (auto simp: assign_def fold_update_length split: sum.splits if_splits)

lemma label_segs_length:
  "label_segs legacy s2v label_id segs lids = Inr lids' \<Longrightarrow> length lids' = length lids"
  by (induction segs arbitrary: lids) (auto split: sum.splits dest: assign_Inr)

lemma label_loop_length:
  "label_loop legacy label_map s2v items lids = Inr lids' \<Longrightarrow> length lids' = length lids"
  by (induction items arbitrary: lids) (auto split: sum.splits dest: label_segs_length)

text \<open>
  The instance loops keep the length of the array, and an element of the array is an old
  element or the \<open>uint32\<close> of an object id of the loop.
\<close>

lemma instance_segs_Inr:
  "instance_segs legacy s2v lids object_id segs (iids, o2l) = Inr (iids', o2l') \<Longrightarrow>
   length iids' = length iids \<and>
   set iids' \<subseteq> set iids \<union> {w. to_uint32 legacy object_id = Inr w}"
proof (induction segs arbitrary: iids o2l)
  case Nil
  then show ?case by auto
next
  case (Cons seg segs)
  from Cons.prems obtain verts iids1 o2l1 where
    a: "assign legacy iids verts object_id = Inr iids1" and
    r: "instance_segs legacy s2v lids object_id segs (iids1, o2l1) = Inr (iids', o2l')"
    by (auto split: sum.splits option.splits)
  from assign_Inr [OF a] Cons.IH [OF r] show ?case by auto
qed

lemma instance_loop_Inr:
  "instance_loop legacy s2v lids items (iids, o2l) = Inr (iids', o2l') \<Longrightarrow>
   length iids' = length iids \<and>
   set iids' \<subseteq> set iids \<union> {w. \<exists>k \<in> fst ` set items. to_uint32 legacy k = Inr w}"
proof (induction items arbitrary: iids o2l)
  case Nil
  then show ?case by auto
next
  case (Cons item items)
  obtain object_id segs where item: "item = (object_id, segs)" by (cases item)
  from Cons.prems item obtain iids1 o2l1 where
    s: "instance_segs legacy s2v lids object_id segs (iids, o2l) = Inr (iids1, o2l1)" and
    r: "instance_loop legacy s2v lids items (iids1, o2l1) = Inr (iids', o2l')"
    by (auto split: sum.splits)
  from instance_segs_Inr [OF s] Cons.IH [OF r] show ?case by (auto simp: item)
qed

lemma np_mask_Inr:
  "np_mask bs arr = Inr arr' \<Longrightarrow> length bs = length arr \<and> arr' = map fst (filter snd (zip arr bs))"
  by (auto simp: np_mask_def split: if_splits)

lemma np_take_Inr:
  "np_take idx arr = Inr arr' \<Longrightarrow> arr' = map ((!) arr) idx \<and> list_all (\<lambda>i. i < length arr) idx"
  by (auto simp: np_take_def split: if_splits)

lemma filter_zip_length:
  "length xs = length bs \<Longrightarrow> length (filter snd (zip xs bs)) = length (filter id bs)"
  by (induction xs bs rule: list_induct2) auto

lemma filter_zip_empty:
  "length xs = length bs \<Longrightarrow> filter snd (zip xs bs) = [] \<longleftrightarrow> True \<notin> set bs"
  by (induction xs bs rule: list_induct2) auto

lemma row_index_Inr: "row_index n i = Inr j \<Longrightarrow> i < int n \<and> j < n"
  by (auto simp: row_index_def split: if_splits)

lemma row_index_nonneg: "0 \<le> i \<Longrightarrow> row_index n i = Inr j \<Longrightarrow> j = nat i \<and> j < n"
  by (auto simp: row_index_def split: if_splits)

lemma obj_pc_Inr:
  assumes "obj_pc verts iids k = Inr pc"
  shows "length iids = length verts \<and> (pc = [] \<longleftrightarrow> \<not> (\<exists>w \<in> set iids. uint w = k))"
proof -
  from assms obtain rows where
    m: "np_mask (map (\<lambda>w. uint w = k) iids) verts = Inr rows" and pc: "pc = map (take 3) rows"
    by (auto simp: obj_pc_def split: sum.splits)
  from np_mask_Inr [OF m] have len: "length iids = length verts"
    and rows: "rows = map fst (filter snd (zip verts (map (\<lambda>w. uint w = k) iids)))" by auto
  have "rows = [] \<longleftrightarrow> \<not> (\<exists>w \<in> set iids. uint w = k)"
    using filter_zip_empty [of verts "map (\<lambda>w. uint w = k) iids"] len by (auto simp: rows)
  with len pc show ?thesis by simp
qed

text \<open>
  When the loop over the objects returns, the boolean mask has fitted the vertex array
  and every object id that occurs in the instance array has indexed a row of the boxes.
\<close>

lemma bbox_loop_Inr:
  "bbox_loop lg f32 verts iids o2l ks bboxes = Inr bboxes' \<Longrightarrow>
   length bboxes' = length bboxes \<and>
   (\<forall>k \<in> set ks. \<exists>pc. obj_pc verts iids k = Inr pc) \<and>
   (\<forall>k \<in> set ks. (\<exists>w \<in> set iids. uint w = k) \<longrightarrow> k - 1 < int (length bboxes))"
proof (induction ks arbitrary: bboxes)
  case Nil
  then show ?case by simp
next
  case (Cons k ks)
  from Cons.prems obtain label_id where g: "getitem o2l k = Inr label_id"
    by (auto split: sum.splits)
  with Cons.prems obtain pc where m: "obj_pc verts iids k = Inr pc"
    by (auto split: sum.splits)
  note e = obj_pc_Inr [OF m]
  show ?case
  proof (cases "pc = []")
    case True
    with Cons.prems g m have "bbox_loop lg f32 verts iids o2l ks bboxes = Inr bboxes'"
      by simp
    from Cons.IH [OF this] True e m show ?thesis by auto
  next
    case False
    with Cons.prems g m obtain j where
      j: "row_index (length bboxes) (k - 1) = Inr j" and
      r: "bbox_loop lg f32 verts iids o2l ks (bboxes[j := bbox_of lg f32 pc label_id]) = Inr bboxes'"
      by (auto split: sum.splits)
    from Cons.IH [OF r] row_index_Inr [OF j] m show ?thesis by auto
  qed
qed

text \<open>A row that no object of the loop indexes is left as it was.\<close>

lemma bbox_loop_untouched:
  "bbox_loop lg f32 verts iids o2l ks bboxes = Inr bboxes' \<Longrightarrow>
   (\<forall>k \<in> set ks. row_index (length bboxes) (k - 1) \<noteq> Inr j) \<Longrightarrow>
   bboxes' ! j = bboxes ! j"
proof (induction ks arbitrary: bboxes)
  case Nil
  then show ?case by simp
next
  case (Cons k ks)
  from Cons.prems(1) obtain label_id where g: "getitem o2l k = Inr label_id"
    by (auto split: sum.splits)
  with Cons.prems(1) obtain pc where m: "obj_pc verts iids k = Inr pc"
    by (auto split: sum.splits)
  show ?case
  proof (cases "pc = []")
    case True
    with Cons.prems(1) g m have "bbox_loop lg f32 verts iids o2l ks bboxes = Inr bboxes'"
      by simp
    from Cons.IH [OF this] Cons.prems(2) show ?thesis by simp
  next
    case False
    with Cons.prems(1) g m obtain j' where
      j: "row_index (length bboxes) (k - 1) = Inr j'" and
      r: "bbox_loop lg f32 verts iids o2l ks (bboxes[j' := bbox_of lg f32 pc label_id]) = Inr bboxes'"
      by (auto split: sum.splits)
    from j Cons.prems(2) have ne: "j' \<noteq> j" by auto
    from Cons.IH [OF r] Cons.prems(2)
    have "bboxes' ! j = (bboxes[j' := bbox_of lg f32 pc label_id]) ! j" by simp
    with ne show ?thesis by simp
  qed
qed

text \<open>
  When the object ids of the loop are different and positive, the row \<open>k - 1\<close> of an
  object \<open>k\<close> that has a vertex is the box of its vertices.
\<close>

lemma bbox_loop_row:
  assumes "bbox_loop lg f32 verts iids o2l ks bboxes = Inr bboxes'"
    and "distinct ks" and "\<forall>k \<in> set ks. 1 \<le> k"
    and "k \<in> set ks" and "obj_pc verts iids k = Inr pc" and "pc \<noteq> []"
  shows "nat (k - 1) < length bboxes \<and> (\<exists>l. bboxes' ! nat (k - 1) = bbox_of lg f32 pc l)"
  using assms(1-4)
proof (induction ks arbitrary: bboxes)
  case Nil
  then show ?case by simp
next
  case (Cons k0 ks)
  from Cons.prems(1) obtain label_id where g: "getitem o2l k0 = Inr label_id"
    by (auto split: sum.splits)
  with Cons.prems(1) obtain pc0 where m: "obj_pc verts iids k0 = Inr pc0"
    by (auto split: sum.splits)
  show ?case
  proof (cases "k = k0")
    case True
    with m assms(5,6) have pc0: "pc0 = pc" "pc0 \<noteq> []" by simp_all
    with Cons.prems(1) g m obtain j where
      j: "row_index (length bboxes) (k0 - 1) = Inr j" and
      r: "bbox_loop lg f32 verts iids o2l ks (bboxes[j := bbox_of lg f32 pc label_id]) = Inr bboxes'"
      by (auto split: sum.splits)
    from Cons.prems(3) have "0 \<le> k0 - 1" by simp
    from row_index_nonneg [OF this j] have jk: "j = nat (k0 - 1)" "j < length bboxes" by simp_all
    have "\<forall>k' \<in> set ks. row_index (length (bboxes[j := bbox_of lg f32 pc label_id])) (k' - 1) \<noteq> Inr j"
    proof
      fix k' assume k': "k' \<in> set ks"
      with Cons.prems(2,3) have "k' \<noteq> k0" "0 \<le> k' - 1" by auto
      then have "nat (k' - 1) \<noteq> j" using jk(1) \<open>0 \<le> k0 - 1\<close> by simp
      show "row_index (length (bboxes[j := bbox_of lg f32 pc label_id])) (k' - 1) \<noteq> Inr j"
      proof
        assume "row_index (length (bboxes[j := bbox_of lg f32 pc label_id])) (k' - 1) = Inr j"
        from row_index_nonneg [OF \<open>0 \<le> k' - 1\<close> this] \<open>nat (k' - 1) \<noteq> j\<close>
        show False by simp
      qed
    qed
    from bbox_loop_untouched [OF r this] jk
    have "bboxes' ! j = bbox_of lg f32 pc label_id" by simp
    with jk True show ?thesis by auto
  next
    case False
    with Cons.prems(4) have k: "k \<in> set ks" by simp
    from Cons.prems(2,3) have d: "distinct ks" "\<forall>k \<in> set ks. 1 \<le> k" by simp_all
    show ?thesis
    proof (cases "pc0 = []")
      case True
      with Cons.prems(1) g m have "bbox_loop lg f32 verts iids o2l ks bboxes = Inr bboxes'"
        by simp
      from Cons.IH [OF this d k] show ?thesis .
    next
      case False
      with Cons.prems(1) g m obtain j where
        r: "bbox_loop lg f32 verts iids o2l ks (bboxes[j := bbox_of lg f32 pc0 label_id]) = Inr bboxes'"
        by (auto split: sum.splits)
      from Cons.IH [OF r d k] show ?thesis by simp
    qed
  qed
qed

lemma to_uint32_in_range:
  "to_uint32 legacy k = Inr w \<Longrightarrow> legacy \<longrightarrow> 0 \<le> k \<and> k < 2 ^ 32 \<Longrightarrow> uint w = k"
  by (auto simp: to_uint32_def uint_word_of_int take_bit_int_eq_self split: if_splits)

subsection \<open>The bounding box of a point cloud\<close>

lemma amin_le: "x \<in> set xs \<Longrightarrow> amin xs \<le> x"
proof (cases xs)
  case Nil
  then show "x \<in> set xs \<Longrightarrow> amin xs \<le> x" by simp
next
  case (Cons y ys)
  assume "x \<in> set xs"
  moreover have "amin xs = Min (set xs)"
    using Min.set_eq_fold [of y ys] by (simp add: amin_def Cons)
  ultimately show "amin xs \<le> x" by simp
qed

lemma amax_ge: "x \<in> set xs \<Longrightarrow> x \<le> amax xs"
proof (cases xs)
  case Nil
  then show "x \<in> set xs \<Longrightarrow> x \<le> amax xs" by simp
next
  case (Cons y ys)
  assume "x \<in> set xs"
  moreover have "amax xs = Max (set xs)"
    using Max.set_eq_fold [of y ys] by (simp add: amax_def Cons)
  ultimately show "x \<le> amax xs" by simp
qed

text \<open>
  One axis: with a rounding of relative error \<open>\<epsilon> \<le> 1\<close>, the rounded extent of
  \<open>[lo, hi]\<close> is not negative, and centre and half extent enclose every \<open>x\<close> of the
  interval up to \<open>2 * \<epsilon> * (\<bar>lo\<bar> + \<bar>hi\<bar>)\<close>.
\<close>

lemma axis_within:
  fixes \<epsilon> :: "'a::linordered_field"
  assumes r: "rounds_within \<epsilon> f" and e: "0 \<le> \<epsilon>" "\<epsilon> \<le> 1" and x: "lo \<le> x" "x \<le> hi"
  shows "0 \<le> f (hi - lo)
    \<and> center lg f lo hi - f (hi - lo) / 2 - 2 * \<epsilon> * (\<bar>lo\<bar> + \<bar>hi\<bar>) \<le> x
    \<and> x \<le> center lg f lo hi + f (hi - lo) / 2 + 2 * \<epsilon> * (\<bar>lo\<bar> + \<bar>hi\<bar>)"
proof -
  define T where "T = \<epsilon> * (\<bar>lo\<bar> + \<bar>hi\<bar>)"
  define d where "d = f (hi - lo)"
  define s where "s = f (lo + hi)"
  define c where "c = center lg f lo hi"
  have A: "0 \<le> \<bar>lo\<bar> + \<bar>hi\<bar>" by simp
  have T0: "0 \<le> T" unfolding T_def using e(1) A by (rule mult_nonneg_nonneg)
  have T1: "T \<le> \<bar>lo\<bar> + \<bar>hi\<bar>"
    using mult_right_mono [OF e(2) A] by (simp add: T_def)
  have "\<bar>d - (hi - lo)\<bar> \<le> \<epsilon> * \<bar>hi - lo\<bar>"
    using r by (simp add: rounds_within_def d_def)
  moreover have "\<epsilon> * \<bar>hi - lo\<bar> \<le> \<epsilon> * (\<bar>lo\<bar> + \<bar>hi\<bar>)"
    using e(1) by (intro mult_left_mono) auto
  ultimately have D: "\<bar>d - (hi - lo)\<bar> \<le> T" by (simp add: T_def)
  have "\<epsilon> * (hi - lo) \<le> hi - lo"
    using mult_right_mono [of \<epsilon> 1 "hi - lo"] e(2) x by simp
  moreover have "\<bar>hi - lo\<bar> = hi - lo" using x by simp
  with \<open>\<bar>d - (hi - lo)\<bar> \<le> \<epsilon> * \<bar>hi - lo\<bar>\<close> have "\<bar>d - (hi - lo)\<bar> \<le> \<epsilon> * (hi - lo)"
    by simp
  ultimately have d0: "0 \<le> d" unfolding abs_le_iff by linarith
  have "\<bar>s - (lo + hi)\<bar> \<le> \<epsilon> * \<bar>lo + hi\<bar>"
    using r by (simp add: rounds_within_def s_def)
  moreover have "\<epsilon> * \<bar>lo + hi\<bar> \<le> \<epsilon> * (\<bar>lo\<bar> + \<bar>hi\<bar>)"
    using e(1) by (intro mult_left_mono) auto
  ultimately have S: "\<bar>s - (lo + hi)\<bar> \<le> T" by (simp add: T_def)
  have C: "\<bar>c - s / 2\<bar> \<le> T"
  proof (cases lg)
    case True
    then show ?thesis using T0 by (simp add: c_def center_def s_def)
  next
    case False
    then have "c = f (s / 2)" by (simp add: c_def center_def s_def Let_def)
    moreover have "\<bar>f (s / 2) - s / 2\<bar> \<le> \<epsilon> * \<bar>s / 2\<bar>"
      using r unfolding rounds_within_def by blast
    ultimately have "\<bar>c - s / 2\<bar> \<le> \<epsilon> * \<bar>s / 2\<bar>" by (simp only:)
    moreover have "\<bar>s / 2\<bar> \<le> \<bar>lo\<bar> + \<bar>hi\<bar>" using S T1 by (simp add: abs_le_iff) linarith
    then have "\<epsilon> * \<bar>s / 2\<bar> \<le> \<epsilon> * (\<bar>lo\<bar> + \<bar>hi\<bar>)"
      using e(1) by (intro mult_left_mono) auto
    ultimately show ?thesis by (simp add: T_def)
  qed
  have two: "2 * \<epsilon> * (\<bar>lo\<bar> + \<bar>hi\<bar>) = 2 * T" by (simp add: T_def)
  from D S C x have "c - d / 2 - 2 * T \<le> x" "x \<le> c + d / 2 + 2 * T"
    by (simp_all add: abs_le_iff field_simps)
  with d0 show ?thesis unfolding two by (simp add: c_def d_def)
qed

lemma bbox_of_within:
  fixes \<epsilon> :: "'a::linordered_field"
  assumes r: "rounds_within \<epsilon> f" and e: "0 \<le> \<epsilon>" "\<epsilon> \<le> 1"
  shows "bounds_within \<epsilon> pc (bbox_of lg f pc l)"
proof -
  have ax: "0 \<le> f (amax (map (\<lambda>p. p ! a) pc) - amin (map (\<lambda>p. p ! a) pc))
    \<and> center lg f (amin (map (\<lambda>p. p ! a) pc)) (amax (map (\<lambda>p. p ! a) pc))
        - f (amax (map (\<lambda>p. p ! a) pc) - amin (map (\<lambda>p. p ! a) pc)) / 2 - slack \<epsilon> pc a \<le> p ! a
    \<and> p ! a \<le> center lg f (amin (map (\<lambda>p. p ! a) pc)) (amax (map (\<lambda>p. p ! a) pc))
        + f (amax (map (\<lambda>p. p ! a) pc) - amin (map (\<lambda>p. p ! a) pc)) / 2 + slack \<epsilon> pc a"
    if "p \<in> set pc" for p a
    unfolding slack_def using that by (intro axis_within [OF r e] amin_le amax_ge) auto
  have ext: "0 \<le> f (amax (map (\<lambda>p. p ! a) pc) - amin (map (\<lambda>p. p ! a) pc))" for a
  proof (cases pc)
    case Nil
    have "\<bar>f 0 - 0\<bar> \<le> \<epsilon> * \<bar>0\<bar>" using r unfolding rounds_within_def by blast
    then have "f 0 = 0" by simp
    then show ?thesis by (simp add: Nil amin_def amax_def)
  next
    case (Cons p ps)
    then have "p \<in> set pc" by simp
    from ax [OF this] show ?thesis by simp
  qed
  show ?thesis
    unfolding bounds_within_def bbox_of_def Let_def list_all_iff
    using ax ext by (simp add: numeral_eq_Suc)
qed

subsection \<open>\<open>export\<close>\<close>

lemma export_Inr:
  assumes "export rt files = Inr sc"
  obtains verts0 label_map lines M o2s l2s s2v num_verts lids iids o2l bboxes where
    "read_mesh_vertices_rgb (np_float32 rt) (mesh_file files) = Inr verts0"
    "read_label_mapping (py_int rt) (label_map_file files) ''raw_category'' ''nyu40id'' = Inr label_map"
    "meta_file files = Some lines"
    "load_axis_alignment (py_float rt) lines = Inr M"
    "read_aggregation (agg_file files) = Inr (o2s, l2s)"
    "read_segmentation (seg_file files) = Inr (s2v, num_verts)"
    "label_loop (np_legacy rt) label_map s2v l2s (replicate num_verts 0) = Inr lids"
    "instance_loop (np_legacy rt) s2v lids o2s (replicate num_verts 0, []) = Inr (iids, o2l)"
    "bbox_loop (np_legacy rt) (np_float32 rt)
       (apply_alignment (np_inner rt) (np_float32 rt) M verts0) iids o2l (map fst o2s)
       (replicate (length (remdups (map fst o2s))) (replicate 7 0)) = Inr bboxes"
    "sc = \<lparr>mesh_vertices = apply_alignment (np_inner rt) (np_float32 rt) M verts0,
           label_ids = lids, instance_ids = iids,
           instance_bboxes = bboxes, object_id_to_label_id = o2l\<rparr>"
  using assms unfolding export_def Let_def
  by (auto split: sum.splits option.splits prod.splits)

lemma export_lengths:
  assumes "export rt files = Inr sc"
  shows "\<exists>points colors segIndices.
    mesh_file files = Some (points, colors) \<and> seg_file files = Some segIndices \<and>
    length (mesh_vertices sc) = length points \<and>
    length (label_ids sc) = length segIndices \<and>
    length (instance_ids sc) = length segIndices"
proof -
  from assms obtain verts0 label_map lines M o2s l2s s2v num_verts lids iids o2l bboxes where
    rm: "read_mesh_vertices_rgb (np_float32 rt) (mesh_file files) = Inr verts0" and
    "read_label_mapping (py_int rt) (label_map_file files) ''raw_category'' ''nyu40id'' = Inr label_map"
    "meta_file files = Some lines"
    "load_axis_alignment (py_float rt) lines = Inr M"
    "read_aggregation (agg_file files) = Inr (o2s, l2s)" and
    rs: "read_segmentation (seg_file files) = Inr (s2v, num_verts)" and
    ll: "label_loop (np_legacy rt) label_map s2v l2s (replicate num_verts 0) = Inr lids" and
    il: "instance_loop (np_legacy rt) s2v lids o2s (replicate num_verts 0, []) = Inr (iids, o2l)" and
    "bbox_loop (np_legacy rt) (np_float32 rt)
       (apply_alignment (np_inner rt) (np_float32 rt) M verts0) iids o2l (map fst o2s)
       (replicate (length (remdups (map fst o2s))) (replicate 7 0)) = Inr bboxes" and
    sc: "sc = \<lparr>mesh_vertices = apply_alignment (np_inner rt) (np_float32 rt) M verts0,
           label_ids = lids, instance_ids = iids,
           instance_bboxes = bboxes, object_id_to_label_id = o2l\<rparr>"
    by (rule export_Inr)
  from read_mesh_Inr [OF rm] obtain points colors where
    f: "mesh_file files = Some (points, colors)" and "length verts0 = length points" by blast
  then have v: "length (mesh_vertices sc) = length points"
    by (simp add: sc apply_alignment_length)
  from rs obtain segIndices where s: "seg_file files = Some segIndices" and n: "num_verts = length segIndices"
    by (auto simp: read_segmentation_def split: option.splits)
  from label_loop_length [OF ll] instance_loop_Inr [OF il]
  have "length (label_ids sc) = length segIndices" "length (instance_ids sc) = length segIndices"
    by (simp_all add: sc n)
  with f s v show ?thesis by blast
qed

text \<open>What \<open>export\<close> and \<open>process_scene\<close> return on the concrete inputs.\<close>

lemma ex_export: "export ex_builtins ex_files = Inr ex_scene"
  by code_simp

lemma ex_export_legacy: "export ex_builtins_legacy ex_files = Inr ex_scene"
  by code_simp

lemma ex_export_tight: "export ex_builtins ex_files_tight = Inr ex_scene_tight"
  by code_simp

lemma ex_process3: "process_scene (init 3) ex_builtins ex_files no_files = (None, ex_saved3)"
  by code_simp

lemma ex_process: "process_scene (init 100000) ex_builtins ex_files no_files = (None, ex_saved)"
  by code_simp

lemma ex_read_mesh: "read_mesh_vertices_rgb (np_float32 ex_builtins) (mesh_file ex_files) = Inr ex_verts0"
  by code_simp

lemma ex_load_axis_alignment:
  "load_axis_alignment (py_float ex_builtins) (the (meta_file ex_files)) = Inr ex_matrix"
  by code_simp

text \<open>
  Claim C9, as amended. When \<open>export\<close> returns, the vertex array has one row per row
  \<open>v\<close> of the \<open>float32\<close> array read from the mesh: the colour columns \<open>v[3], v[4], v[5]\<close>
  are unchanged, and the position column \<open>j\<close> is the \<open>float32\<close> rounding of the inner
  product, as NumPy computes it, of \<open>[v[0], v[1], v[2], 1]\<close> with row \<open>j\<close> of the
  alignment matrix \<open>M\<close> (column \<open>j\<close> of its transpose). For a rounding of relative error
  \<open>\<epsilon>\<close> and an inner product of relative error \<open>\<gamma>\<close> the stored number differs from the
  exact homogeneous product by at most \<open>\<epsilon> + \<gamma> + \<epsilon> * \<gamma>\<close> times the sum of the absolute
  values of its four terms.
\<close>

theorem export_alignment:
  assumes "export rt files = Inr sc"
  shows "\<exists>verts0 lines M.
    read_mesh_vertices_rgb (np_float32 rt) (mesh_file files) = Inr verts0 \<and>
    meta_file files = Some lines \<and>
    load_axis_alignment (py_float rt) lines = Inr M \<and>
    mesh_vertices sc =
      map (\<lambda>v. [np_float32 rt (np_inner rt [v ! 0, v ! 1, v ! 2, 1] (M ! 0)),
                np_float32 rt (np_inner rt [v ! 0, v ! 1, v ! 2, 1] (M ! 1)),
                np_float32 rt (np_inner rt [v ! 0, v ! 1, v ! 2, 1] (M ! 2)),
                v ! 3, v ! 4, v ! 5]) verts0 \<and>
    (0 \<le> \<epsilon> \<and> rounds_within \<epsilon> (np_float32 rt) \<and> inner_within \<gamma> (np_inner rt) \<longrightarrow>
       list_all2 (\<lambda>v' v. list_all (\<lambda>j. \<bar>v' ! j - dot [v ! 0, v ! 1, v ! 2, 1] (M ! j)\<bar>
                                  \<le> (\<epsilon> + \<gamma> + \<epsilon> * \<gamma>) * absdot [v ! 0, v ! 1, v ! 2, 1] (M ! j))
                            [0, 1, 2])
         (mesh_vertices sc) verts0)"
proof -
  from assms obtain verts0 label_map lines M o2s l2s s2v num_verts lids iids o2l bboxes where
    rm: "read_mesh_vertices_rgb (np_float32 rt) (mesh_file files) = Inr verts0" and
    "read_label_mapping (py_int rt) (label_map_file files) ''raw_category'' ''nyu40id'' = Inr label_map" and
    mf: "meta_file files = Some lines" and
    la: "load_axis_alignment (py_float rt) lines = Inr M" and
    "read_aggregation (agg_file files) = Inr (o2s, l2s)"
    "read_segmentation (seg_file files) = Inr (s2v, num_verts)"
    "label_loop (np_legacy rt) label_map s2v l2s (replicate num_verts 0) = Inr lids"
    "instance_loop (np_legacy rt) s2v lids o2s (replicate num_verts 0, []) = Inr (iids, o2l)"
    "bbox_loop (np_legacy rt) (np_float32 rt)
       (apply_alignment (np_inner rt) (np_float32 rt) M verts0) iids o2l (map fst o2s)
       (replicate (length (remdups (map fst o2s))) (replicate 7 0)) = Inr bboxes" and
    sc: "sc = \<lparr>mesh_vertices = apply_alignment (np_inner rt) (np_float32 rt) M verts0,
           label_ids = lids, instance_ids = iids,
           instance_bboxes = bboxes, object_id_to_label_id = o2l\<rparr>"
    by (rule export_Inr)
  from read_mesh_Inr [OF rm] have six: "list_all (\<lambda>v. length v = 6) verts0" by blast
  from load_axis_alignment_shape [OF la] obtain a b c d e f' g h i j k l m n p q where
    M: "M = [[a, b, c, d], [e, f', g, h], [i, j, k, l], [m, n, p, q]]" by blast
  define F where "F = (\<lambda>v. [np_float32 rt (np_inner rt [v ! 0, v ! 1, v ! 2, 1] (M ! 0)),
                np_float32 rt (np_inner rt [v ! 0, v ! 1, v ! 2, 1] (M ! 1)),
                np_float32 rt (np_inner rt [v ! 0, v ! 1, v ! 2, 1] (M ! 2)),
                v ! 3, v ! 4, v ! 5])"
  have "mesh_vertices sc = apply_alignment (np_inner rt) (np_float32 rt) M verts0"
    by (simp add: sc)
  also have "\<dots> = map F verts0"
    unfolding F_def by (rule apply_alignment_rows [OF M six])
  finally have mv: "mesh_vertices sc = map F verts0" .
  have near: "list_all2 (\<lambda>v' v. list_all (\<lambda>j. \<bar>v' ! j - dot [v ! 0, v ! 1, v ! 2, 1] (M ! j)\<bar>
                                  \<le> (\<epsilon> + \<gamma> + \<epsilon> * \<gamma>) * absdot [v ! 0, v ! 1, v ! 2, 1] (M ! j))
                            [0, 1, 2])
         (mesh_vertices sc) verts0"
    if t: "0 \<le> \<epsilon>" "rounds_within \<epsilon> (np_float32 rt)" "inner_within \<gamma> (np_inner rt)"
    unfolding mv list_all2_map1 list_all2_same
  proof
    fix v assume "v \<in> set verts0"
    note b = rounded_inner_error [OF t(2,3,1), of "[v ! 0, v ! 1, v ! 2, 1]"]
    from b [of "M ! 0"] b [of "M ! 1"] b [of "M ! 2"]
    show "list_all (\<lambda>j. \<bar>F v ! j - dot [v ! 0, v ! 1, v ! 2, 1] (M ! j)\<bar>
                                  \<le> (\<epsilon> + \<gamma> + \<epsilon> * \<gamma>) * absdot [v ! 0, v ! 1, v ! 2, 1] (M ! j))
                            [0, 1, 2]"
      by (simp add: F_def)
  qed
  from rm mf la mv near show ?thesis unfolding F_def by blast
qed

text \<open>
  The claim as stated, with the exact product, fails: a vertex at \<open>x = 2 ^ 24\<close> moved
  by 1 along the x axis has the product \<open>2 ^ 24 + 1\<close>, and the vertex array holds
  \<open>2 ^ 24\<close>.
\<close>

theorem export_alignment_rounds:
  "export ex_builtins ex_files_far = Inr ex_scene_far
   \<and> read_mesh_vertices_rgb (np_float32 ex_builtins) (mesh_file ex_files_far)
       = Inr [[16777216, 0, 0, 0, 0, 0]]
   \<and> load_axis_alignment (py_float ex_builtins) (the (meta_file ex_files_far))
       = Inr [[1, 0, 0, 1], [0, 1, 0, 0], [0, 0, 1, 0], [0, 0, 0, 1]]
   \<and> dot [16777216, 0, 0, 1] [1, 0, 0, 1 :: rat] = 16777217
   \<and> mesh_vertices ex_scene_far ! 0 ! 0 = 16777216"
  by code_simp

theorem export_alignment_witness:
  "export ex_builtins ex_files = Inr ex_scene
   \<and> read_mesh_vertices_rgb (np_float32 ex_builtins) (mesh_file ex_files) = Inr ex_verts0
   \<and> load_axis_alignment (py_float ex_builtins) (the (meta_file ex_files)) = Inr ex_matrix
   \<and> mesh_vertices ex_scene =
      map (\<lambda>v. [np_float32 ex_builtins (np_inner ex_builtins [v ! 0, v ! 1, v ! 2, 1] (ex_matrix ! 0)),
                np_float32 ex_builtins (np_inner ex_builtins [v ! 0, v ! 1, v ! 2, 1] (ex_matrix ! 1)),
                np_float32 ex_builtins (np_inner ex_builtins [v ! 0, v ! 1, v ! 2, 1] (ex_matrix ! 2)),
                v ! 3, v ! 4, v ! 5]) ex_verts0
   \<and> rounds_within (1 / 2 ^ 24) (np_float32 ex_builtins)
   \<and> inner_within 0 (np_inner ex_builtins)
   \<and> list_all2 (\<lambda>v' v. list_all (\<lambda>j. \<bar>v' ! j - dot [v ! 0, v ! 1, v ! 2, 1] (ex_matrix ! j)\<bar>
                                  \<le> (1 / 2 ^ 24 + 0 + 1 / 2 ^ 24 * 0)
                                      * absdot [v ! 0, v ! 1, v ! 2, 1] (ex_matrix ! j))
                            [0, 1, 2])
         (mesh_vertices ex_scene) ex_verts0"
proof -
  from export_alignment [OF ex_export, of "1 / 2 ^ 24" 0] obtain verts0 lines M where
    a: "read_mesh_vertices_rgb (np_float32 ex_builtins) (mesh_file ex_files) = Inr verts0" and
    b: "meta_file ex_files = Some lines" and
    c: "load_axis_alignment (py_float ex_builtins) lines = Inr M" and
    d: "mesh_vertices ex_scene =
      map (\<lambda>v. [np_float32 ex_builtins (np_inner ex_builtins [v ! 0, v ! 1, v ! 2, 1] (M ! 0)),
                np_float32 ex_builtins (np_inner ex_builtins [v ! 0, v ! 1, v ! 2, 1] (M ! 1)),
                np_float32 ex_builtins (np_inner ex_builtins [v ! 0, v ! 1, v ! 2, 1] (M ! 2)),
                v ! 3, v ! 4, v ! 5]) verts0" and
    e: "0 \<le> (1 / 2 ^ 24 :: rat) \<and> rounds_within (1 / 2 ^ 24) (np_float32 ex_builtins)
          \<and> inner_within 0 (np_inner ex_builtins) \<longrightarrow>
       list_all2 (\<lambda>v' v. list_all (\<lambda>j. \<bar>v' ! j - dot [v ! 0, v ! 1, v ! 2, 1] (M ! j)\<bar>
                                  \<le> (1 / 2 ^ 24 + 0 + 1 / 2 ^ 24 * 0)
                                      * absdot [v ! 0, v ! 1, v ! 2, 1] (M ! j))
                            [0, 1, 2])
         (mesh_vertices ex_scene) verts0"
    by blast
  from a ex_read_mesh have v: "verts0 = ex_verts0" by simp
  from b c ex_load_axis_alignment have m: "M = ex_matrix" by simp
  have "0 \<le> (1 / 2 ^ 24 :: rat)" by simp
  with e ex_rounds_within ex_inner_within
  have "list_all2 (\<lambda>v' v. list_all (\<lambda>j. \<bar>v' ! j - dot [v ! 0, v ! 1, v ! 2, 1] (M ! j)\<bar>
                                  \<le> (1 / 2 ^ 24 + 0 + 1 / 2 ^ 24 * 0)
                                      * absdot [v ! 0, v ! 1, v ! 2, 1] (M ! j))
                            [0, 1, 2])
         (mesh_vertices ex_scene) verts0"
    by blast
  with d ex_export ex_read_mesh ex_load_axis_alignment ex_rounds_within ex_inner_within
  show ?thesis unfolding v m by (simp only: simp_thms)
qed

text \<open>
  Claim C3. When the metadata file has no line that contains \<open>axisAlignment\<close>,
  \<open>export\<close> raises: the exception is \<open>UnboundLocalError\<close> (the matrix is read before any
  assignment) once the mesh and the label table have been read, and the exception of
  those readers otherwise. \<open>process_scene\<close> leaves the output files as they were, and
  it raises unless all four files were there already.
\<close>

theorem export_without_alignment:
  assumes "meta_file files = Some lines"
    and "list_all (\<lambda>line. \<not> is_substring ''axisAlignment'' line) lines"
  shows "(\<exists>e. export rt files = Inl e)
    \<and> ((\<exists>verts. read_mesh_vertices_rgb (np_float32 rt) (mesh_file files) = Inr verts) \<and>
        (\<exists>label_map. read_label_mapping (py_int rt) (label_map_file files) ''raw_category'' ''nyu40id''
                        = Inr label_map)
        \<longrightarrow> export rt files = Inl UnboundLocalError)
    \<and> snd (process_scene self rt files out) = out
    \<and> (\<not> all_saved out \<longrightarrow> (\<exists>e. fst (process_scene self rt files out) = Some e))"
proof -
  from assms(2) have "find (is_substring ''axisAlignment'') lines = None"
    by (simp add: find_None_iff list_all_iff)
  then have la: "load_axis_alignment (py_float rt) lines = Inl UnboundLocalError"
    by (simp add: load_axis_alignment_def)
  have ex: "export rt files = Inl UnboundLocalError"
    if "read_mesh_vertices_rgb (np_float32 rt) (mesh_file files) = Inr verts"
       "read_label_mapping (py_int rt) (label_map_file files) ''raw_category'' ''nyu40id'' = Inr label_map"
    for verts label_map
    using that la assms(1) by (simp add: export_def)
  have fails: "\<exists>e. export rt files = Inl e"
    using la assms(1) by (auto simp: export_def split: sum.splits)
  then obtain e where e: "export rt files = Inl e" by blast
  then have "snd (process_scene self rt files out) = out"
    and "\<not> all_saved out \<longrightarrow> (\<exists>e. fst (process_scene self rt files out) = Some e)"
    by (simp_all add: process_scene_def)
  with fails ex show ?thesis by blast
qed

theorem export_without_alignment_witness:
  "meta_file ex_files_unaligned = Some [''sceneType = Office'' @ [CHR 0x0A]]
   \<and> list_all (\<lambda>line. \<not> is_substring ''axisAlignment'' line) [''sceneType = Office'' @ [CHR 0x0A]]
   \<and> export ex_builtins ex_files_unaligned = Inl UnboundLocalError
   \<and> \<not> all_saved no_files
   \<and> snd (process_scene (init 100000) ex_builtins ex_files_unaligned no_files) = no_files
   \<and> (\<exists>e. fst (process_scene (init 100000) ex_builtins ex_files_unaligned no_files) = Some e)"
proof -
  have m: "meta_file ex_files_unaligned = Some [''sceneType = Office'' @ [CHR 0x0A]]"
    by (simp add: ex_files_unaligned_def)
  have k: "list_all (\<lambda>line. \<not> is_substring ''axisAlignment'' line) [''sceneType = Office'' @ [CHR 0x0A]]"
    by code_simp
  have "mesh_file ex_files_unaligned = mesh_file ex_files"
    by (simp add: ex_files_unaligned_def)
  with ex_read_mesh
  have v: "\<exists>verts. read_mesh_vertices_rgb (np_float32 ex_builtins) (mesh_file ex_files_unaligned) = Inr verts"
    by simp
  have "read_label_mapping (py_int ex_builtins) (label_map_file ex_files_unaligned)
      ''raw_category'' ''nyu40id'' = Inr [(StrKey ''chair'', 5)]"
    by code_simp
  then have l: "\<exists>label_map. read_label_mapping (py_int ex_builtins) (label_map_file ex_files_unaligned)
      ''raw_category'' ''nyu40id'' = Inr label_map" by blast
  have n: "\<not> all_saved no_files" by (simp add: all_saved_def no_files_def)
  from export_without_alignment [OF m k, of ex_builtins "init 100000" no_files] v l n m k
  show ?thesis by blast
qed

text \<open>
  Claim C6, as amended. When \<open>export\<close> returns, every instance id is at most the number
  of object groups of the aggregation file, so it is 0 or one of \<open>1..K\<close>, provided
  that NumPy raises on an integer that does not fit \<open>uint32\<close> (NumPy 2) or that every
  object id (\<open>objectId + 1\<close>) fits \<open>uint32\<close>.
\<close>

theorem instance_ids_in_range:
  assumes run: "export rt files = Inr sc"
    and agg: "agg_file files = Some segGroups"
    and range: "np_legacy rt \<longrightarrow>
                  list_all (\<lambda>g. 0 \<le> objectId g + 1 \<and> objectId g + 1 < 2 ^ 32) segGroups"
  shows "list_all (\<lambda>v. unat v \<le> length segGroups) (instance_ids sc)"
  unfolding list_all_iff
proof
  fix v assume v: "v \<in> set (instance_ids sc)"
  from run obtain verts0 label_map lines M o2s l2s s2v num_verts lids iids o2l bboxes where
    "read_mesh_vertices_rgb (np_float32 rt) (mesh_file files) = Inr verts0"
    "read_label_mapping (py_int rt) (label_map_file files) ''raw_category'' ''nyu40id'' = Inr label_map"
    "meta_file files = Some lines"
    "load_axis_alignment (py_float rt) lines = Inr M" and
    ra: "read_aggregation (agg_file files) = Inr (o2s, l2s)" and
    "read_segmentation (seg_file files) = Inr (s2v, num_verts)"
    "label_loop (np_legacy rt) label_map s2v l2s (replicate num_verts 0) = Inr lids" and
    il: "instance_loop (np_legacy rt) s2v lids o2s (replicate num_verts 0, []) = Inr (iids, o2l)" and
    bl: "bbox_loop (np_legacy rt) (np_float32 rt)
       (apply_alignment (np_inner rt) (np_float32 rt) M verts0) iids o2l (map fst o2s)
       (replicate (length (remdups (map fst o2s))) (replicate 7 0)) = Inr bboxes" and
    sc: "sc = \<lparr>mesh_vertices = apply_alignment (np_inner rt) (np_float32 rt) M verts0,
           label_ids = lids, instance_ids = iids,
           instance_bboxes = bboxes, object_id_to_label_id = o2l\<rparr>"
    by (rule export_Inr)
  from read_aggregation_keys [OF ra [unfolded agg]]
  have keys: "set (map fst o2s) = (\<lambda>g. objectId g + 1) ` set segGroups"
    and dist: "distinct (map fst o2s)" and len: "length o2s \<le> length segGroups" by auto
  show "unat v \<le> length segGroups"
  proof (cases "v = 0")
    case True
    then show ?thesis by simp
  next
    case False
    from instance_loop_Inr [OF il] v sc
    have "v \<in> set (replicate num_verts 0) \<union>
        {w. \<exists>k \<in> fst ` set o2s. to_uint32 (np_legacy rt) k = Inr w}"
      by auto
    with False obtain k where
      k: "k \<in> fst ` set o2s" and conv: "to_uint32 (np_legacy rt) k = Inr v"
      by (auto simp: in_set_replicate)
    from k keys range have "np_legacy rt \<longrightarrow> 0 \<le> k \<and> k < 2 ^ 32"
      by (auto simp: list_all_iff)
    with conv have u: "uint v = k" by (rule to_uint32_in_range)
    with v sc have "\<exists>w \<in> set iids. uint w = k" by auto
    with bbox_loop_Inr [OF bl] k have "k - 1 < int (length (remdups (map fst o2s)))"
      by auto
    also have "length (remdups (map fst o2s)) = length o2s"
      using dist by (simp add: distinct_remdups_id)
    finally have "k \<le> int (length segGroups)" using len by simp
    with u show ?thesis by (simp add: unat_eq_nat_uint)
  qed
qed

text \<open>
  The claim as stated, for every scene, fails under a NumPy before 2.0: with the one
  object group of \<open>objectId\<close> \<open>2 ^ 32 + 6\<close> the object id \<open>2 ^ 32 + 7\<close> is stored as 7,
  and \<open>K = 1\<close>.
\<close>

theorem instance_ids_wrap:
  "export ex_builtins_legacy ex_files_wrap = Inr ex_scene_wrap
   \<and> agg_file ex_files_wrap = Some [\<lparr>objectId = 4294967302, label = ''chair'', segments = [1]\<rparr>]
   \<and> instance_ids ex_scene_wrap = [0, 0, 7, 7, 7]
   \<and> \<not> list_all (\<lambda>v. unat v \<le> length [\<lparr>objectId = 4294967302, label = ''chair'', segments = [1]\<rparr>])
         (instance_ids ex_scene_wrap)"
  by code_simp

theorem instance_ids_in_range_witness:
  "export ex_builtins_legacy ex_files = Inr ex_scene
   \<and> agg_file ex_files = Some ex_groups
   \<and> np_legacy ex_builtins_legacy
   \<and> list_all (\<lambda>g. 0 \<le> objectId g + 1 \<and> objectId g + 1 < 2 ^ 32) ex_groups
   \<and> list_all (\<lambda>v. unat v \<le> length ex_groups) (instance_ids ex_scene)"
proof -
  have agg: "agg_file ex_files = Some ex_groups" by (simp add: ex_files_def)
  have lg: "np_legacy ex_builtins_legacy" by (simp add: ex_builtins_legacy_def)
  have range: "list_all (\<lambda>g. 0 \<le> objectId g + 1 \<and> objectId g + 1 < 2 ^ 32) ex_groups"
    by (simp add: ex_groups_def)
  from instance_ids_in_range [OF ex_export_legacy agg] range lg ex_export_legacy agg
  show ?thesis by simp
qed

text \<open>
  Claim C5, as amended. Let no \<open>objectId\<close> of the aggregation file be negative and let
  the \<open>float32\<close> rounding have a relative error of at most \<open>\<epsilon> \<le> 1\<close>. When \<open>export\<close>
  returns, then for every object group the mask of line 198 selects the positions
  \<open>pc\<close> of its member vertices, and when there is one, row \<open>objectId\<close> of the boxes has
  three extents that are not negative and encloses every member vertex on each axis
  between centre minus half the extent and centre plus half the extent, up to
  \<open>2 * \<epsilon>\<close> times the sum of the absolute values of the least and the greatest
  coordinate of the members on that axis.
\<close>

theorem bbox_within_tolerance:
  assumes run: "export rt files = Inr sc"
    and agg: "agg_file files = Some segGroups"
    and nonneg: "list_all (\<lambda>g. 0 \<le> objectId g) segGroups"
    and eps: "0 \<le> \<epsilon>" "\<epsilon> \<le> 1"
    and rnd: "rounds_within \<epsilon> (np_float32 rt)"
  shows "list_all (\<lambda>g. \<exists>pc. obj_pc (mesh_vertices sc) (instance_ids sc) (objectId g + 1) = Inr pc \<and>
                          (pc = [] \<or>
                           nat (objectId g) < length (instance_bboxes sc) \<and>
                           bounds_within \<epsilon> pc (instance_bboxes sc ! nat (objectId g))))
           segGroups"
  unfolding list_all_iff
proof
  fix g assume g: "g \<in> set segGroups"
  from run obtain verts0 label_map lines M o2s l2s s2v num_verts lids iids o2l bboxes where
    "read_mesh_vertices_rgb (np_float32 rt) (mesh_file files) = Inr verts0"
    "read_label_mapping (py_int rt) (label_map_file files) ''raw_category'' ''nyu40id'' = Inr label_map"
    "meta_file files = Some lines"
    "load_axis_alignment (py_float rt) lines = Inr M" and
    ra: "read_aggregation (agg_file files) = Inr (o2s, l2s)" and
    "read_segmentation (seg_file files) = Inr (s2v, num_verts)"
    "label_loop (np_legacy rt) label_map s2v l2s (replicate num_verts 0) = Inr lids"
    "instance_loop (np_legacy rt) s2v lids o2s (replicate num_verts 0, []) = Inr (iids, o2l)" and
    bl: "bbox_loop (np_legacy rt) (np_float32 rt)
       (apply_alignment (np_inner rt) (np_float32 rt) M verts0) iids o2l (map fst o2s)
       (replicate (length (remdups (map fst o2s))) (replicate 7 0)) = Inr bboxes" and
    sc: "sc = \<lparr>mesh_vertices = apply_alignment (np_inner rt) (np_float32 rt) M verts0,
           label_ids = lids, instance_ids = iids,
           instance_bboxes = bboxes, object_id_to_label_id = o2l\<rparr>"
    by (rule export_Inr)
  define verts where "verts = apply_alignment (np_inner rt) (np_float32 rt) M verts0"
  define k where "k = objectId g + 1"
  from read_aggregation_keys [OF ra [unfolded agg]]
  have keys: "set (map fst o2s) = (\<lambda>g. objectId g + 1) ` set segGroups"
    and dist: "distinct (map fst o2s)" by auto
  from keys g have k: "k \<in> set (map fst o2s)" by (auto simp: k_def)
  from keys nonneg have pos: "\<forall>k \<in> set (map fst o2s). 1 \<le> k"
    by (auto simp: list_all_iff)
  note bl' = bl [folded verts_def]
  from bbox_loop_Inr [OF bl'] k obtain pc where
    pc: "obj_pc verts iids k = Inr pc" and
    len: "length bboxes = length (remdups (map fst o2s))" by auto
  have "pc = [] \<or> nat (objectId g) < length bboxes \<and> bounds_within \<epsilon> pc (bboxes ! nat (objectId g))"
  proof (cases "pc = []")
    case True
    then show ?thesis by simp
  next
    case False
    from bbox_loop_row [OF bl' dist pos k pc False] obtain l where
      "nat (k - 1) < length bboxes" "bboxes ! nat (k - 1) = bbox_of (np_legacy rt) (np_float32 rt) pc l"
      by (auto simp: len)
    with bbox_of_within [OF rnd eps, of pc "np_legacy rt" l] show ?thesis
      by (simp add: k_def)
  qed
  with pc show "\<exists>pc. obj_pc (mesh_vertices sc) (instance_ids sc) (objectId g + 1) = Inr pc \<and>
                          (pc = [] \<or>
                           nat (objectId g) < length (instance_bboxes sc) \<and>
                           bounds_within \<epsilon> pc (instance_bboxes sc ! nat (objectId g)))"
    by (auto simp: sc verts_def k_def)
qed

text \<open>
  The claim as stated, with no tolerance, fails: for the object of the two vertices at
  \<open>x = 1\<close> and \<open>x = 1 + 2 ^ -23\<close> the sum \<open>2 + 2 ^ -23\<close> is rounded to 2, the centre
  is 1 and the extent \<open>2 ^ -23\<close>, and the second vertex lies beyond
  \<open>1 + 2 ^ -24\<close>.
\<close>

theorem bbox_misses_vertex:
  "export ex_builtins ex_files_tight = Inr ex_scene_tight
   \<and> obj_pc (mesh_vertices ex_scene_tight) (instance_ids ex_scene_tight) 1
       = Inr [[1, 0, 0], [8388609 / 8388608, 0, 0]]
   \<and> instance_bboxes ex_scene_tight ! 0 = [1, 0, 0, 1 / 8388608, 0, 0, 5]
   \<and> \<not> bounds_within 0 [[1, 0, 0], [8388609 / 8388608, 0, 0]] (instance_bboxes ex_scene_tight ! 0)"
  by code_simp

theorem bbox_within_tolerance_witness:
  "export ex_builtins ex_files_tight = Inr ex_scene_tight
   \<and> agg_file ex_files_tight = Some ex_groups
   \<and> list_all (\<lambda>g. 0 \<le> objectId g) ex_groups
   \<and> 0 \<le> (1 / 2 ^ 24 :: rat) \<and> (1 / 2 ^ 24 :: rat) \<le> 1
   \<and> rounds_within (1 / 2 ^ 24) (np_float32 ex_builtins)
   \<and> obj_pc (mesh_vertices ex_scene_tight) (instance_ids ex_scene_tight) 1
       = Inr [[1, 0, 0], [8388609 / 8388608, 0, 0]]
   \<and> bounds_within (1 / 2 ^ 24) [[1, 0, 0], [8388609 / 8388608, 0, 0]]
       (instance_bboxes ex_scene_tight ! 0)"
proof -
  have agg: "agg_file ex_files_tight = Some ex_groups"
    by (simp add: ex_files_tight_def ex_files_def)
  have nonneg: "list_all (\<lambda>g. 0 \<le> objectId g) ex_groups" by (simp add: ex_groups_def)
  have eps: "0 \<le> (1 / 2 ^ 24 :: rat)" "(1 / 2 ^ 24 :: rat) \<le> 1" by simp_all
  have pc: "obj_pc (mesh_vertices ex_scene_tight) (instance_ids ex_scene_tight) 1
       = Inr [[1, 0, 0], [8388609 / 8388608, 0, 0]]"
    by code_simp
  from bbox_within_tolerance [OF ex_export_tight agg nonneg eps ex_rounds_within] pc
  have "bounds_within (1 / 2 ^ 24) [[1, 0, 0], [8388609 / 8388608, 0, 0]]
       (instance_bboxes ex_scene_tight ! 0)"
    by (simp add: ex_groups_def)
  with ex_export_tight agg nonneg eps ex_rounds_within pc show ?thesis
    by (simp only: simp_thms)
qed

text \<open>
  A negative \<open>objectId\<close> is not harmless: with the two objects of \<open>objectId\<close> 1 and -1
  the box of the object of id 0 is written to row -1, the last row, which is the row
  of the object of id 2; the one member vertex of that object, at \<open>x = 50\<close>, is far
  from the box the row holds.
\<close>

lemma bbox_row_overwritten:
  "export ex_builtins ex_files_minus1 = Inr ex_scene_minus1
   \<and> obj_pc (mesh_vertices ex_scene_minus1) (instance_ids ex_scene_minus1) 2 = Inr [[50, 0, 0]]
   \<and> instance_bboxes ex_scene_minus1 ! 1 = [9 / 2, 0, 0, 9, 0, 0, 7]
   \<and> \<not> bounds_within (1 / 2 ^ 24) [[50, 0, 0]] (instance_bboxes ex_scene_minus1 ! 1)"
  by code_simp

subsection \<open>\<open>process_scene\<close>\<close>

lemma dontcare_filter_Inr:
  assumes "dontcare_filter self (V, S, I) = Inr (V', S', I')"
  shows "length S = length V \<and> length I = length V \<and> length S' = length V' \<and> length I' = length V'"
proof -
  define keep where "keep = map (\<lambda>l. of_nat (unat l) \<notin> set (DONOTCARE_IDS self)) S"
  from assms have v: "np_mask keep V = Inr V'" and s: "np_mask keep S = Inr S'"
    and i: "np_mask keep I = Inr I'"
    by (auto simp: dontcare_filter_def Let_def keep_def split: sum.splits)
  from np_mask_Inr [OF v] np_mask_Inr [OF s] np_mask_Inr [OF i]
  show ?thesis
    using filter_zip_length [of V keep] filter_zip_length [of S keep] filter_zip_length [of I keep]
    by simp
qed

lemma subsample_lengths:
  assumes "subsample self rt (V, S, I) = Inr (V', S', I')" "length S = length V" "length I = length V"
  shows "length S' = length V' \<and> length I' = length V'"
  using assms
  by (auto simp: subsample_def Let_def split: if_splits sum.splits dest!: np_take_Inr)

lemma subsample_Inr:
  assumes ok: "sampler_ok (np_random_choice rt)"
    and run: "subsample self rt (V, S, I) = Inr (V', S', I')"
    and len: "length S = length V" "length I = length V"
  shows "length V' \<le> length V
    \<and> (\<exists>idx. distinct idx \<and> list_all (\<lambda>i. i < length V) idx
          \<and> V' = map ((!) V) idx \<and> S' = map ((!) S) idx \<and> I' = map ((!) I) idx)
    \<and> (int (length V) \<le> max_num_point self \<longrightarrow> V' = V \<and> S' = S \<and> I' = I)"
proof (cases "int (length V) > max_num_point self")
  case True
  define idx where "idx = np_random_choice rt (length V) (nat (max_num_point self))"
  from True run have nonneg: "0 \<le> max_num_point self"
    by (auto simp: subsample_def Let_def split: if_splits)
  with True have le: "nat (max_num_point self) \<le> length V" by simp
  with ok have c: "length idx = nat (max_num_point self)" "distinct idx" "list_all (\<lambda>i. i < length V) idx"
    by (auto simp: sampler_ok_def idx_def)
  from True run nonneg have "np_take idx V = Inr V'" "np_take idx S = Inr S'" "np_take idx I = Inr I'"
    by (auto simp: subsample_def Let_def idx_def split: if_splits sum.splits)
  then have "V' = map ((!) V) idx" "S' = map ((!) S) idx" "I' = map ((!) I) idx"
    by (auto dest: np_take_Inr)
  with c le True show ?thesis by auto
next
  case False
  with run have same: "V' = V" "S' = S" "I' = I"
    by (auto simp: subsample_def Let_def)
  have "distinct [0..<length V]" "list_all (\<lambda>i. i < length V) [0..<length V]"
    by (simp_all add: list_all_iff)
  moreover have "V = map ((!) V) [0..<length V]" "S = map ((!) S) [0..<length V]"
    "I = map ((!) I) [0..<length V]"
    using map_nth [of V] map_nth [of S] map_nth [of I] len by simp_all
  ultimately show ?thesis using same by (metis order_refl)
qed

lemma process_scene_None:
  assumes "process_scene self rt files out = (None, out')" "\<not> all_saved out"
  obtains sc V S I V' S' I' where
    "export rt files = Inr sc"
    "dontcare_filter self (mesh_vertices sc, label_ids sc, instance_ids sc) = Inr (V, S, I)"
    "subsample self rt (V, S, I) = Inr (V', S', I')"
    "out' = \<lparr>vert_npy = Some V', sem_label_npy = Some S', ins_label_npy = Some I',
             bbox_npy = Some (bbox_filter self (instance_bboxes sc))\<rparr>"
  using assms unfolding process_scene_def Let_def
  by (auto split: sum.splits prod.splits)

lemma ex_sampler_ok: "sampler_ok (np_random_choice ex_builtins)"
  by (auto simp: sampler_ok_def ex_builtins_def list_all_iff)

text \<open>
  Claim C1, as amended. When \<open>export\<close> returns, the semantic and the instance array
  have the length of \<open>segIndices\<close> and the vertex array has one row per vertex of the
  mesh; so the three lengths agree when the mesh and the segmentation have the same
  number of vertices. When \<open>process_scene\<close> saves its arrays, the three per-vertex
  arrays it saves have the same length.
\<close>

theorem per_vertex_lengths:
  "(export rt files = Inr sc \<longrightarrow>
      (\<exists>points colors segIndices.
         mesh_file files = Some (points, colors) \<and> seg_file files = Some segIndices \<and>
         length (mesh_vertices sc) = length points \<and>
         length (label_ids sc) = length segIndices \<and>
         length (instance_ids sc) = length segIndices \<and>
         (length points = length segIndices \<longrightarrow>
            length (label_ids sc) = length (mesh_vertices sc) \<and>
            length (instance_ids sc) = length (mesh_vertices sc))))
   \<and> (\<not> all_saved out \<and> process_scene self rt files out = (None, out') \<longrightarrow>
      (\<exists>verts semantic_labels instance_labels.
         vert_npy out' = Some verts \<and> sem_label_npy out' = Some semantic_labels \<and>
         ins_label_npy out' = Some instance_labels \<and>
         length semantic_labels = length verts \<and> length instance_labels = length verts))"
proof (intro conjI impI)
  assume "export rt files = Inr sc"
  from export_lengths [OF this] show "\<exists>points colors segIndices.
         mesh_file files = Some (points, colors) \<and> seg_file files = Some segIndices \<and>
         length (mesh_vertices sc) = length points \<and>
         length (label_ids sc) = length segIndices \<and>
         length (instance_ids sc) = length segIndices \<and>
         (length points = length segIndices \<longrightarrow>
            length (label_ids sc) = length (mesh_vertices sc) \<and>
            length (instance_ids sc) = length (mesh_vertices sc))"
    by auto
next
  assume a: "\<not> all_saved out \<and> process_scene self rt files out = (None, out')"
  then obtain sc' V S I V' S' I' where
    "export rt files = Inr sc'" and
    d: "dontcare_filter self (mesh_vertices sc', label_ids sc', instance_ids sc') = Inr (V, S, I)" and
    s: "subsample self rt (V, S, I) = Inr (V', S', I')" and
    o: "out' = \<lparr>vert_npy = Some V', sem_label_npy = Some S', ins_label_npy = Some I',
             bbox_npy = Some (bbox_filter self (instance_bboxes sc'))\<rparr>"
    by (auto elim: process_scene_None)
  from dontcare_filter_Inr [OF d] have "length S = length V" "length I = length V" by auto
  from subsample_lengths [OF s this] o
  show "\<exists>verts semantic_labels instance_labels.
         vert_npy out' = Some verts \<and> sem_label_npy out' = Some semantic_labels \<and>
         ins_label_npy out' = Some instance_labels \<and>
         length semantic_labels = length verts \<and> length instance_labels = length verts"
    by simp
qed

text \<open>
  The claim as stated fails for the raw output of \<open>export\<close>: for a mesh of two
  vertices, a segmentation of one vertex and no object, \<open>export\<close> returns two vertex
  rows and label arrays of length one (\<open>process_scene\<close> then fails on the boolean mask).
\<close>

theorem export_mismatched_lengths:
  "export ex_builtins ex_files_mismatch = Inr ex_scene_mismatch
   \<and> length (mesh_vertices ex_scene_mismatch) = 2
   \<and> length (label_ids ex_scene_mismatch) = 1
   \<and> length (instance_ids ex_scene_mismatch) = 1
   \<and> process_scene (init 100000) ex_builtins ex_files_mismatch no_files = (Some IndexError, no_files)"
  by code_simp

theorem per_vertex_lengths_witness:
  "export ex_builtins ex_files = Inr ex_scene
   \<and> mesh_file ex_files = Some (ex_points, ex_colors) \<and> seg_file ex_files = Some [0, 0, 1, 1, 1]
   \<and> length ex_points = length [0, 0, 1, 1, 1 :: int]
   \<and> length (label_ids ex_scene) = length (mesh_vertices ex_scene)
   \<and> length (instance_ids ex_scene) = length (mesh_vertices ex_scene)
   \<and> \<not> all_saved no_files
   \<and> process_scene (init 3) ex_builtins ex_files no_files = (None, ex_saved3)
   \<and> (\<exists>verts semantic_labels instance_labels.
         vert_npy ex_saved3 = Some verts \<and> sem_label_npy ex_saved3 = Some semantic_labels \<and>
         ins_label_npy ex_saved3 = Some instance_labels \<and>
         length semantic_labels = length verts \<and> length instance_labels = length verts)"
proof -
  note run = ex_export
  have files: "mesh_file ex_files = Some (ex_points, ex_colors)" "seg_file ex_files = Some [0, 0, 1, 1, 1]"
    by (simp_all add: ex_files_def)
  have same: "length ex_points = length [0, 0, 1, 1, 1 :: int]" by (simp add: ex_points_def)
  have n: "\<not> all_saved no_files" by (simp add: all_saved_def no_files_def)
  note p = ex_process3
  note t = per_vertex_lengths [of ex_builtins ex_files ex_scene no_files "init 3" ex_saved3]
  from t run files same
  have "length (label_ids ex_scene) = length (mesh_vertices ex_scene)"
    "length (instance_ids ex_scene) = length (mesh_vertices ex_scene)"
    by auto
  moreover from t n p
  have "\<exists>verts semantic_labels instance_labels.
         vert_npy ex_saved3 = Some verts \<and> sem_label_npy ex_saved3 = Some semantic_labels \<and>
         ins_label_npy ex_saved3 = Some instance_labels \<and>
         length semantic_labels = length verts \<and> length instance_labels = length verts"
    by blast
  ultimately show ?thesis using run files same n p by blast
qed

text \<open>
  Claim C7. Let \<open>V, S, I\<close> be the three per-vertex arrays after the don't-care filter and
  \<open>V', S', I'\<close> the arrays \<open>process_scene\<close> saves, with a sampler that keeps the
  contract of \<open>np.random.choice(..., replace=False)\<close>. Then \<open>V'\<close> has at most as many
  rows as \<open>V\<close>; the saved arrays are the rows of \<open>V, S, I\<close> at one list of indices that
  holds no index twice; and when \<open>V\<close> has at most \<open>max_num_point\<close> rows the saved arrays
  are \<open>V, S, I\<close> themselves.
\<close>

theorem subsampling:
  assumes "sampler_ok (np_random_choice rt)"
    and "\<not> all_saved out"
    and "process_scene self rt files out = (None, out')"
  shows "\<exists>sc V S I V' S' I'.
    export rt files = Inr sc \<and>
    dontcare_filter self (mesh_vertices sc, label_ids sc, instance_ids sc) = Inr (V, S, I) \<and>
    vert_npy out' = Some V' \<and> sem_label_npy out' = Some S' \<and> ins_label_npy out' = Some I' \<and>
    length V' \<le> length V \<and>
    (\<exists>idx. distinct idx \<and> list_all (\<lambda>i. i < length V) idx
          \<and> V' = map ((!) V) idx \<and> S' = map ((!) S) idx \<and> I' = map ((!) I) idx) \<and>
    (int (length V) \<le> max_num_point self \<longrightarrow> V' = V \<and> S' = S \<and> I' = I)"
proof -
  from assms(3,2) obtain sc V S I V' S' I' where
    e: "export rt files = Inr sc" and
    d: "dontcare_filter self (mesh_vertices sc, label_ids sc, instance_ids sc) = Inr (V, S, I)" and
    s: "subsample self rt (V, S, I) = Inr (V', S', I')" and
    o: "out' = \<lparr>vert_npy = Some V', sem_label_npy = Some S', ins_label_npy = Some I',
             bbox_npy = Some (bbox_filter self (instance_bboxes sc))\<rparr>"
    by (rule process_scene_None)
  from dontcare_filter_Inr [OF d] have len: "length S = length V" "length I = length V" by auto
  from subsample_Inr [OF assms(1) s len] e d o show ?thesis
    by (intro exI [of _ sc] exI [of _ V] exI [of _ S] exI [of _ I] exI [of _ V'] exI [of _ S']
          exI [of _ I']) simp
qed

theorem subsampling_witness:
  "sampler_ok (np_random_choice ex_builtins) \<and> \<not> all_saved no_files
   \<and> process_scene (init 3) ex_builtins ex_files no_files = (None, ex_saved3)
   \<and> (\<exists>V S I V' S' I'.
        dontcare_filter (init 3) (mesh_vertices ex_scene, label_ids ex_scene, instance_ids ex_scene)
          = Inr (V, S, I) \<and>
        vert_npy ex_saved3 = Some V' \<and> sem_label_npy ex_saved3 = Some S' \<and>
        ins_label_npy ex_saved3 = Some I' \<and> length V' \<le> length V \<and>
        (\<exists>idx. distinct idx \<and> list_all (\<lambda>i. i < length V) idx
              \<and> V' = map ((!) V) idx \<and> S' = map ((!) S) idx \<and> I' = map ((!) I) idx))
   \<and> process_scene (init 100000) ex_builtins ex_files no_files = (None, ex_saved)
   \<and> int (length (mesh_vertices ex_scene)) \<le> max_num_point (init 100000 :: rat scannet_process)
   \<and> vert_npy ex_saved = Some (mesh_vertices ex_scene)
   \<and> sem_label_npy ex_saved = Some (label_ids ex_scene)
   \<and> ins_label_npy ex_saved = Some (instance_ids ex_scene)"
proof -
  note run = ex_export
  have n: "\<not> all_saved no_files" by (simp add: all_saved_def no_files_def)
  note p3 = ex_process3
  note p = ex_process
  have small: "int (length (mesh_vertices ex_scene)) \<le> max_num_point (init 100000 :: rat scannet_process)"
    by (simp add: ex_scene_def init_def)
  have keep: "dontcare_filter (init 100000) (mesh_vertices ex_scene, label_ids ex_scene, instance_ids ex_scene)
      = Inr (mesh_vertices ex_scene, label_ids ex_scene, instance_ids ex_scene)"
    by code_simp
  from subsampling [OF ex_sampler_ok n p3] run
  have first: "\<exists>V S I V' S' I'.
        dontcare_filter (init 3) (mesh_vertices ex_scene, label_ids ex_scene, instance_ids ex_scene)
          = Inr (V, S, I) \<and>
        vert_npy ex_saved3 = Some V' \<and> sem_label_npy ex_saved3 = Some S' \<and>
        ins_label_npy ex_saved3 = Some I' \<and> length V' \<le> length V \<and>
        (\<exists>idx. distinct idx \<and> list_all (\<lambda>i. i < length V) idx
              \<and> V' = map ((!) V) idx \<and> S' = map ((!) S) idx \<and> I' = map ((!) I) idx)"
    by (clarsimp, blast)
  from subsampling [OF ex_sampler_ok n p] obtain sc V S I V' S' I' where
    e: "export ex_builtins ex_files = Inr sc" and
    d: "dontcare_filter (init 100000) (mesh_vertices sc, label_ids sc, instance_ids sc) = Inr (V, S, I)" and
    o: "vert_npy ex_saved = Some V'" "sem_label_npy ex_saved = Some S'" "ins_label_npy ex_saved = Some I'" and
    noop: "int (length V) \<le> max_num_point (init 100000 :: rat scannet_process)
           \<longrightarrow> V' = V \<and> S' = S \<and> I' = I"
    by blast
  from e run have "sc = ex_scene" by simp
  with d keep have "V = mesh_vertices ex_scene" "S = label_ids ex_scene" "I = instance_ids ex_scene"
    by simp_all
  with noop small o have second: "vert_npy ex_saved = Some (mesh_vertices ex_scene)"
    "sem_label_npy ex_saved = Some (label_ids ex_scene)"
    "ins_label_npy ex_saved = Some (instance_ids ex_scene)"
    by simp_all
  from ex_sampler_ok n p3 first p small second show ?thesis by (simp only: simp_thms)
qed

end
